theory Spec2Isabelle
  imports Complex_Main
begin

section \<open>Culinary Compass: the two-stage request orchestration of App.jsx\<close>

text \<open>
  The component \<open>App\<close> of \<^verbatim>\<open>src/App.jsx\<close> keeps six pieces of state and has two
  asynchronous handlers, \<open>handleGetGuide\<close> and \<open>handleGenerateImage\<close>. JavaScript runs
  each handler without interruption up to its next \<open>await\<close>, so every handler is
  modelled as the state transformers between its suspension points: the part that runs
  when the handler is called, and the part that runs when the awaited reply arrives.
\<close>

subsection \<open>JavaScript values\<close>

text \<open>
  A value produced by \<open>response.json()\<close> or \<open>JSON.parse\<close>. An object keeps its entries
  in textual order; a later entry with the same key overrides an earlier one. The value
  \<open>undefined\<close> is \<open>None\<close> of \<open>json option\<close>. Of a number the program tests only whether it
  is zero and whether it is positive.
\<close>

datatype json =
    JNull
  | JBool bool
  | JNum rat
  | JStr string
  | JArr "json list"
  | JObj "(string \<times> json) list"

text \<open>Truthiness, as tested by \<open>!x\<close>, \<open>x &&\<close> and \<open>if (x)\<close>.\<close>

fun truthy :: "json option \<Rightarrow> bool" where
  "truthy None = False"
| "truthy (Some JNull) = False"
| "truthy (Some (JBool b)) = b"
| "truthy (Some (JNum n)) = (n \<noteq> 0)"
| "truthy (Some (JStr s)) = (s \<noteq> [])"
| "truthy (Some (JArr xs)) = True"
| "truthy (Some (JObj kvs)) = True"

text \<open>
  Property read \<open>v.k\<close> or \<open>v[0]\<close> (the key \<open>''0''\<close>) on a value that is neither \<open>null\<close>
  nor \<open>undefined\<close>, for the property names the program reads: \<open>candidates\<close>, \<open>content\<close>,
  \<open>parts\<close>, \<open>text\<close>, \<open>imageGenPrompt\<close>, \<open>predictions\<close>, \<open>bytesBase64Encoded\<close>, \<open>length\<close>
  and the index \<open>0\<close>. Arrays and strings have \<open>length\<close> and a first element; numbers
  and booleans have none of these properties.
\<close>

fun member :: "json \<Rightarrow> string \<Rightarrow> json option" where
  "member (JObj kvs) k = map_of (rev kvs) k"
| "member (JArr xs) k =
     (if k = ''length'' then Some (JNum (of_nat (length xs)))
      else if k = ''0'' then (case xs of [] \<Rightarrow> None | x # _ \<Rightarrow> Some x)
      else None)"
| "member (JStr s) k =
     (if k = ''length'' then Some (JNum (of_nat (length s)))
      else if k = ''0'' then (case s of [] \<Rightarrow> None | c # _ \<Rightarrow> Some (JStr [c]))
      else None)"
| "member v k = None"

text \<open>Optional chaining \<open>v?.k\<close>: \<open>undefined\<close> when \<open>v\<close> is \<open>null\<close> or \<open>undefined\<close>.\<close>

fun opt_member :: "json option \<Rightarrow> string \<Rightarrow> json option" where
  "opt_member None k = None"
| "opt_member (Some JNull) k = None"
| "opt_member (Some v) k = member v k"

subsection \<open>What is thrown, the runtime, the network\<close>

text \<open>
  The values thrown inside the two \<open>try\<close> blocks: the four \<open>Error\<close>s the program
  creates with their own messages, the \<open>SyntaxError\<close> of \<open>response.json()\<close> and
  \<open>JSON.parse\<close>, the \<open>TypeError\<close> of a property read on \<open>null\<close> or \<open>undefined\<close>, and the
  rejection of \<open>fetch\<close> itself.
\<close>

datatype thrown =
    ApiKeyMissing
  | ApiRequestFailed nat
  | InvalidResponseStructure
  | ImageGenerationFailed nat
  | InvalidImageStructure
  | SyntaxError
  | TypeError
  | FetchRejected

text \<open>
  What the program takes from outside its own text: the module constant \<open>apiKey\<close>
  (line 83; \<open>None\<close> when the variable is not defined) and three operations of the
  JavaScript runtime. \<open>JSON_parse v\<close> is \<open>JSON.parse(v)\<close>, \<open>None\<close> when it throws;
  \<open>ToString v\<close> is the string a template literal inserts for a value that is not a
  string; \<open>ToNumber_gt0 v\<close> is the comparison \<open>v > 0\<close> for a string, array or object.
\<close>

record env =
  apiKey :: "string option"
  JSON_parse :: "json \<Rightarrow> json option"
  ToString :: "json \<Rightarrow> string"
  ToNumber_gt0 :: "json \<Rightarrow> bool"

text \<open>\<open>!apiKey\<close> is false exactly for a non-empty string.\<close>

definition key_present :: "env \<Rightarrow> bool" where
  "key_present e = (case apiKey e of None \<Rightarrow> False | Some k \<Rightarrow> k \<noteq> [])"

text \<open>The comparison \<open>x > 0\<close>.\<close>

fun gt_zero :: "env \<Rightarrow> json option \<Rightarrow> bool" where
  "gt_zero e None = False"
| "gt_zero e (Some JNull) = False"
| "gt_zero e (Some (JBool b)) = b"
| "gt_zero e (Some (JNum n)) = (0 < n)"
| "gt_zero e (Some v) = ToNumber_gt0 e v"

text \<open>The text \<open>${v}\<close> of a template literal.\<close>

fun template :: "env \<Rightarrow> json \<Rightarrow> string" where
  "template e (JStr s) = s"
| "template e v = ToString e v"

text \<open>
  The outcome of one \<open>fetch\<close>: the promise is rejected, or a response arrives with a
  status and a body; the body is \<open>None\<close> when \<open>response.json()\<close> rejects.
  \<open>response.ok\<close> holds for the statuses 200 to 299.
\<close>

datatype reply = NoResponse | Response nat "json option"

definition ok :: "nat \<Rightarrow> bool" where
  "ok status = (200 \<le> status \<and> status \<le> 299)"

text \<open>
  The two requests the program sends. The number is the search that caused the
  request (bookkeeping of the model); the guide request carries the location put into
  the prompt, the image request the prompt it sends.
\<close>

datatype request = GuideRequest nat string | ImageRequest nat json

datatype diag = GuideDiag thrown | ImageDiag thrown

subsection \<open>State\<close>

text \<open>
  The first six fields are the \<open>useState\<close> cells of \<open>App\<close> (lines 87 to 97), with
  \<open>null\<close> as \<open>JNull\<close> for \<open>guide\<close> and as \<open>None\<close> for \<open>error\<close> and \<open>imageUrl\<close>. The other
  fields record what happens around the component and are never read by it: the
  requests sent, the searches whose guide or image request has no reply yet, the
  \<open>console.error\<close> output, the number of searches started, and the guide replies
  delivered.
\<close>

record app =
  location :: string
  guide :: json
  loading :: bool
  error :: "string option"
  imageUrl :: "string option"
  isImageLoading :: bool
  net :: "request list"
  guide_inflight :: "nat list"
  image_inflight :: "nat list"
  console :: "diag list"
  searches :: nat
  delivered :: "(nat \<times> reply) list"

definition init_app :: app where
  "init_app = \<lparr> location = [], guide = JNull, loading = False, error = None,
     imageUrl = None, isImageLoading = False, net = [], guide_inflight = [],
     image_inflight = [], console = [], searches = 0, delivered = [] \<rparr>"

definition empty_message :: string where
  "empty_message = ''Please enter a country or city.''"

definition generic_message :: string where
  "generic_message = ''Could not fetch the guide. The Culinary Compass is recalibrating!''"

subsection \<open>handleGenerateImage (lines 102 to 135)\<close>

text \<open>Lines 103 to 117: up to the \<open>await fetch\<close>.\<close>

definition handleGenerateImage :: "nat \<Rightarrow> json \<Rightarrow> app \<Rightarrow> app" where
  "handleGenerateImage q imageGenPrompt s =
     s\<lparr> isImageLoading := True, imageUrl := None,
        net := net s @ [ImageRequest q imageGenPrompt],
        image_inflight := image_inflight s @ [q] \<rparr>"

text \<open>Lines 118 to 127: the new image URL, or what is thrown.\<close>

definition image_result :: "env \<Rightarrow> reply \<Rightarrow> thrown + string" where
  "image_result e r =
     (case r of
        NoResponse \<Rightarrow> Inl FetchRejected
      | Response status body \<Rightarrow>
          if \<not> ok status then Inl (ImageGenerationFailed status)
          else (case body of
              None \<Rightarrow> Inl SyntaxError
            | Some JNull \<Rightarrow> Inl TypeError
            | Some result \<Rightarrow>
                (case member result ''predictions'' of
                   None \<Rightarrow> Inl InvalidImageStructure
                 | Some predictions \<Rightarrow>
                     if truthy (Some predictions) \<and> gt_zero e (member predictions ''length'')
                     then (case member predictions ''0'' of
                         None \<Rightarrow> Inl TypeError
                       | Some JNull \<Rightarrow> Inl TypeError
                       | Some first \<Rightarrow>
                           (case member first ''bytesBase64Encoded'' of
                              None \<Rightarrow> Inl InvalidImageStructure
                            | Some b \<Rightarrow>
                                if truthy (Some b)
                                then Inr (''data:image/png;base64,'' @ template e b)
                                else Inl InvalidImageStructure))
                     else Inl InvalidImageStructure)))"

text \<open>Lines 118 to 134: the reply arrives; \<open>catch\<close> only logs, \<open>finally\<close> clears the flag.\<close>

definition image_settled :: "env \<Rightarrow> reply \<Rightarrow> app \<Rightarrow> app" where
  "image_settled e r s =
     (case image_result e r of
        Inr newImageUrl \<Rightarrow> s\<lparr> imageUrl := Some newImageUrl, isImageLoading := False \<rparr>
      | Inl err \<Rightarrow> s\<lparr> console := console s @ [ImageDiag err], isImageLoading := False \<rparr>)"

subsection \<open>handleGetGuide (lines 140 to 209)\<close>

text \<open>The \<open>catch\<close> block, lines 203 to 205.\<close>

definition guide_catch :: "thrown \<Rightarrow> app \<Rightarrow> app" where
  "guide_catch err s =
     s\<lparr> console := console s @ [GuideDiag err], error := Some generic_message \<rparr>"

text \<open>
  Lines 141 to 188: the call itself, up to the \<open>await fetch\<close>. A missing key is thrown,
  caught and finished within the call.
\<close>

definition handleGetGuide :: "env \<Rightarrow> app \<Rightarrow> app" where
  "handleGetGuide e s =
     (if location s = [] then s\<lparr> error := Some empty_message \<rparr>
      else
        let q = searches s;
            s1 = s\<lparr> loading := True, error := None, guide := JNull, imageUrl := None,
                    searches := Suc q \<rparr>
        in if \<not> key_present e then (guide_catch ApiKeyMissing s1)\<lparr> loading := False \<rparr>
           else s1\<lparr> net := net s1 @ [GuideRequest q (location s)],
                    guide_inflight := guide_inflight s1 @ [q] \<rparr>)"

text \<open>Line 192: \<open>result.candidates?.[0]?.content?.parts?.[0]?.text\<close>, for \<open>result\<close> not \<open>null\<close>.\<close>

definition jsonResponseText :: "json \<Rightarrow> json option" where
  "jsonResponseText result =
     opt_member (opt_member (opt_member (opt_member (opt_member
       (member result ''candidates'') ''0'') ''content'') ''parts'') ''0'') ''text''"

text \<open>Lines 189 to 195: the parsed guide, or what is thrown.\<close>

definition guide_result :: "env \<Rightarrow> reply \<Rightarrow> thrown + json" where
  "guide_result e r =
     (case r of
        NoResponse \<Rightarrow> Inl FetchRejected
      | Response status body \<Rightarrow>
          if \<not> ok status then Inl (ApiRequestFailed status)
          else (case body of
              None \<Rightarrow> Inl SyntaxError
            | Some JNull \<Rightarrow> Inl TypeError
            | Some result \<Rightarrow>
                (case jsonResponseText result of
                   None \<Rightarrow> Inl InvalidResponseStructure
                 | Some text \<Rightarrow>
                     if \<not> truthy (Some text) then Inl InvalidResponseStructure
                     else (case JSON_parse e text of
                         None \<Rightarrow> Inl SyntaxError
                       | Some parsedGuide \<Rightarrow> Inr parsedGuide))))"

text \<open>
  Lines 189 to 207: the reply arrives. \<open>setGuide\<close> comes before the read of
  \<open>parsedGuide.imageGenPrompt\<close>, which throws when the parsed value is \<open>null\<close>.
\<close>

definition guide_settled :: "env \<Rightarrow> nat \<Rightarrow> reply \<Rightarrow> app \<Rightarrow> app" where
  "guide_settled e q r s =
     (case guide_result e r of
        Inl err \<Rightarrow> (guide_catch err s)\<lparr> loading := False \<rparr>
      | Inr parsedGuide \<Rightarrow>
          let s1 = s\<lparr> guide := parsedGuide \<rparr> in
          (case parsedGuide of
             JNull \<Rightarrow> (guide_catch TypeError s1)\<lparr> loading := False \<rparr>
           | _ \<Rightarrow>
               (case member parsedGuide ''imageGenPrompt'' of
                  None \<Rightarrow> s1\<lparr> loading := False \<rparr>
                | Some imageGenPrompt \<Rightarrow>
                    if truthy (Some imageGenPrompt)
                    then (handleGenerateImage q imageGenPrompt s1)\<lparr> loading := False \<rparr>
                    else s1\<lparr> loading := False \<rparr>)))"

subsection \<open>Executions\<close>

text \<open>
  What can happen to the component: the user edits the text field (line 27), the form
  is submitted, or a pending request is answered. The submit button is disabled while
  \<open>loading\<close> holds (line 33), and a form whose submit button is disabled is not
  submitted, so \<open>Submit\<close> does nothing then. A reply for a search that has no such
  request pending cannot arrive.
\<close>

datatype event = SetLocation string | Submit | GuideReply nat reply | ImageReply nat reply

fun step :: "env \<Rightarrow> app \<Rightarrow> event \<Rightarrow> app" where
  "step e s (SetLocation v) = s\<lparr> location := v \<rparr>"
| "step e s Submit = (if loading s then s else handleGetGuide e s)"
| "step e s (GuideReply q r) =
     (if q \<in> set (guide_inflight s)
      then guide_settled e q r
             (s\<lparr> guide_inflight := removeAll q (guide_inflight s),
                 delivered := delivered s @ [(q, r)] \<rparr>)
      else s)"
| "step e s (ImageReply q r) =
     (if q \<in> set (image_inflight s)
      then image_settled e r (s\<lparr> image_inflight := removeAll q (image_inflight s) \<rparr>)
      else s)"

definition run :: "env \<Rightarrow> app \<Rightarrow> event list \<Rightarrow> app" where
  "run e s evs = foldl (step e) s evs"

text \<open>
  The bookkeeping that every execution keeps in order: a guide request is pending
  exactly while \<open>loading\<close> holds, it is then the only one and belongs to the newest
  search, and every request sent belongs to a search already started.
\<close>

fun search_of :: "request \<Rightarrow> nat" where
  "search_of (GuideRequest q l) = q"
| "search_of (ImageRequest q p) = q"

definition orderly :: "app \<Rightarrow> bool" where
  "orderly s =
     ((if loading s then guide_inflight s = [searches s - 1] \<and> 0 < searches s
       else guide_inflight s = [])
      \<and> (\<forall>req \<in> set (net s). search_of req < searches s))"

subsection \<open>Sample inputs\<close>

text \<open>
  A guide text as the text service returns it, the value \<open>JSON.parse\<close> gives for it, and
  the same guide with an empty image prompt.
\<close>

definition rome_text :: string where
  \<open>rome_text = ''{"locationName":"Rome","mustTryDishes":[{"name":"Carbonara","description":"Pasta with egg and guanciale"}],"etiquetteTip":"No cappuccino after lunch","restaurantSuggestion":"Roscioli","imageGenPrompt":"A plate of carbonara"}''\<close>

definition rome_guide :: json where
  "rome_guide = JObj
     [(''locationName'', JStr ''Rome''),
      (''mustTryDishes'', JArr [JObj [(''name'', JStr ''Carbonara''),
         (''description'', JStr ''Pasta with egg and guanciale'')]]),
      (''etiquetteTip'', JStr ''No cappuccino after lunch''),
      (''restaurantSuggestion'', JStr ''Roscioli''),
      (''imageGenPrompt'', JStr ''A plate of carbonara'')]"

definition plain_text :: string where
  \<open>plain_text = ''{"locationName":"Rome","mustTryDishes":[{"name":"Carbonara","description":"Pasta with egg and guanciale"}],"etiquetteTip":"No cappuccino after lunch","restaurantSuggestion":"Roscioli","imageGenPrompt":""}''\<close>

definition plain_guide :: json where
  "plain_guide = JObj
     [(''locationName'', JStr ''Rome''),
      (''mustTryDishes'', JArr [JObj [(''name'', JStr ''Carbonara''),
         (''description'', JStr ''Pasta with egg and guanciale'')]]),
      (''etiquetteTip'', JStr ''No cappuccino after lunch''),
      (''restaurantSuggestion'', JStr ''Roscioli''),
      (''imageGenPrompt'', JStr [])]"

text \<open>A guide for a second search.\<close>

definition kyoto_text :: string where
  \<open>kyoto_text = ''{"locationName":"Kyoto","mustTryDishes":[{"name":"Kaiseki","description":"A seasonal dinner of many courses"}],"etiquetteTip":"Do not pass food from chopsticks to chopsticks","restaurantSuggestion":"Kikunoi","imageGenPrompt":"A kaiseki course"}''\<close>

definition kyoto_guide :: json where
  "kyoto_guide = JObj
     [(''locationName'', JStr ''Kyoto''),
      (''mustTryDishes'', JArr [JObj [(''name'', JStr ''Kaiseki''),
         (''description'', JStr ''A seasonal dinner of many courses'')]]),
      (''etiquetteTip'', JStr ''Do not pass food from chopsticks to chopsticks''),
      (''restaurantSuggestion'', JStr ''Kikunoi''),
      (''imageGenPrompt'', JStr ''A kaiseki course'')]"

text \<open>
  \<open>JSON.parse\<close> on the texts the examples use: the three guides and the empty object;
  the example of a text that is not JSON is \<open>not json\<close>.
\<close>

definition sample_parse :: "json \<Rightarrow> json option" where
  "sample_parse t =
     (if t = JStr rome_text then Some rome_guide
      else if t = JStr plain_text then Some plain_guide
      else if t = JStr ''{}'' then Some (JObj [])
      else if t = JStr kyoto_text then Some kyoto_guide
      else None)"

text \<open>
  A runtime with a key. The examples never reach \<open>ToString\<close> or \<open>ToNumber_gt0\<close>: their
  image payloads are strings and their predictions are arrays.
\<close>

definition sample_env :: env where
  "sample_env = \<lparr> apiKey = Some ''secret'', JSON_parse = sample_parse,
     ToString = (\<lambda>v. []), ToNumber_gt0 = (\<lambda>v. False) \<rparr>"

definition keyless_env :: env where
  "keyless_env = sample_env\<lparr> apiKey := None \<rparr>"

text \<open>A reply of the text service that carries the given text, and one of the image service.\<close>

definition text_reply :: "string \<Rightarrow> reply" where
  "text_reply t = Response 200 (Some (JObj [(''candidates'',
     JArr [JObj [(''content'', JObj [(''parts'', JArr [JObj [(''text'', JStr t)]])])]])]))"

definition image_reply :: reply where
  "image_reply = Response 200 (Some (JObj [(''predictions'',
     JArr [JObj [(''bytesBase64Encoded'', JStr ''iVBORw0KGgo='')]])]))"

text \<open>A state that shows a guide and its image.\<close>

definition shown_app :: app where
  "shown_app = init_app\<lparr> guide := rome_guide,
     imageUrl := Some ''data:image/png;base64,iVBORw0KGgo='', searches := 1 \<rparr>"

text \<open>
  Rome is searched and its guide arrives, so the image request is sent; before the
  image arrives, Kyoto is searched.
\<close>

definition superseded_trace :: "event list" where
  "superseded_trace = [SetLocation ''Rome'', Submit, GuideReply 0 (text_reply rome_text),
     SetLocation ''Kyoto'', Submit]"

section \<open>The handlers, case by case\<close>

subsection \<open>The reply of the text service\<close>

lemma guide_result_status:
  "\<not> ok status \<Longrightarrow> guide_result e (Response status body) = Inl (ApiRequestFailed status)"
  by (simp add: guide_result_def)

lemma guide_result_no_text:
  "ok status \<Longrightarrow> result \<noteq> JNull \<Longrightarrow> \<not> truthy (jsonResponseText result) \<Longrightarrow>
   guide_result e (Response status (Some result)) = Inl InvalidResponseStructure"
  by (cases result; cases "jsonResponseText result") (simp_all add: guide_result_def)

lemma guide_result_Response:
  "ok status \<Longrightarrow> result \<noteq> JNull \<Longrightarrow> jsonResponseText result = Some t \<Longrightarrow> truthy (Some t) \<Longrightarrow>
   guide_result e (Response status (Some result)) =
     (case JSON_parse e t of None \<Rightarrow> Inl SyntaxError | Some g \<Rightarrow> Inr g)"
  by (cases result) (simp_all add: guide_result_def)

lemma guide_result_unparsed:
  "ok status \<Longrightarrow> result \<noteq> JNull \<Longrightarrow> jsonResponseText result = Some t \<Longrightarrow> truthy (Some t) \<Longrightarrow>
   JSON_parse e t = None \<Longrightarrow>
   guide_result e (Response status (Some result)) = Inl SyntaxError"
  by (simp add: guide_result_Response)

text \<open>The four ways in which \<open>handleGetGuide\<close> finishes once the reply is there.\<close>

lemma guide_settled_thrown:
  "guide_result e r = Inl err \<Longrightarrow>
   guide_settled e q r s =
     s\<lparr> console := console s @ [GuideDiag err], error := Some generic_message,
        loading := False \<rparr>"
  by (simp add: guide_settled_def guide_catch_def)

lemma guide_settled_null:
  "guide_result e r = Inr JNull \<Longrightarrow>
   guide_settled e q r s =
     s\<lparr> guide := JNull, console := console s @ [GuideDiag TypeError],
        error := Some generic_message, loading := False \<rparr>"
  by (simp add: guide_settled_def guide_catch_def)

lemma guide_settled_prompt:
  "guide_result e r = Inr g \<Longrightarrow> member g ''imageGenPrompt'' = Some p \<Longrightarrow> truthy (Some p) \<Longrightarrow>
   guide_settled e q r s =
     s\<lparr> guide := g, isImageLoading := True, imageUrl := None,
        net := net s @ [ImageRequest q p],
        image_inflight := image_inflight s @ [q], loading := False \<rparr>"
  by (cases g) (simp_all add: guide_settled_def handleGenerateImage_def)

lemma guide_settled_plain:
  "guide_result e r = Inr g \<Longrightarrow> g \<noteq> JNull \<Longrightarrow> \<not> truthy (member g ''imageGenPrompt'') \<Longrightarrow>
   guide_settled e q r s = s\<lparr> guide := g, loading := False \<rparr>"
  by (cases g; cases "member g ''imageGenPrompt''") (simp_all add: guide_settled_def)

lemma guide_settled_cases:
  obtains (thrown) err where "guide_result e r = Inl err"
  | (null) "guide_result e r = Inr JNull"
  | (prompt) g p where "guide_result e r = Inr g" "member g ''imageGenPrompt'' = Some p"
      "truthy (Some p)"
  | (plain) g where "guide_result e r = Inr g" "g \<noteq> JNull"
      "\<not> truthy (member g ''imageGenPrompt'')"
proof (cases "guide_result e r")
  case (Inl err)
  then show ?thesis by (rule thrown)
next
  case (Inr g)
  show ?thesis
  proof (cases "g = JNull")
    case True
    with Inr show ?thesis by (simp add: null)
  next
    case False
    show ?thesis
    proof (cases "member g ''imageGenPrompt''")
      case None
      with Inr False show ?thesis by (simp add: plain)
    next
      case (Some p)
      with Inr False show ?thesis
        by (cases "truthy (Some p)") (auto intro: prompt plain)
    qed
  qed
qed

subsection \<open>The reply of the image service\<close>

lemma image_settled_thrown:
  "image_result e r = Inl err \<Longrightarrow>
   image_settled e r s = s\<lparr> console := console s @ [ImageDiag err], isImageLoading := False \<rparr>"
  by (simp add: image_settled_def)

lemma image_settled_url:
  "image_result e r = Inr u \<Longrightarrow>
   image_settled e r s = s\<lparr> imageUrl := Some u, isImageLoading := False \<rparr>"
  by (simp add: image_settled_def)

lemma image_result_status:
  "\<not> ok status \<Longrightarrow> image_result e (Response status body) = Inl (ImageGenerationFailed status)"
  by (simp add: image_result_def)

lemma image_result_no_predictions:
  "ok status \<Longrightarrow> result \<noteq> JNull \<Longrightarrow>
   member result ''predictions'' = None \<or> member result ''predictions'' = Some (JArr []) \<Longrightarrow>
   image_result e (Response status (Some result)) = Inl InvalidImageStructure"
  by (cases result) (auto simp add: image_result_def)

lemma image_result_no_bytes:
  "ok status \<Longrightarrow> member result ''predictions'' = Some (JArr (x # xs)) \<Longrightarrow>
   \<not> truthy (opt_member (Some x) ''bytesBase64Encoded'') \<Longrightarrow>
   \<exists>err. image_result e (Response status (Some result)) = Inl err"
  by (cases result; cases x)
    (auto simp add: image_result_def split: option.splits)

subsection \<open>Executions\<close>

lemma run_Nil: "run e s [] = s"
  by (simp add: run_def)

lemma run_Cons: "run e s (ev # evs) = run e (step e s ev) evs"
  by (simp add: run_def)

lemma run_append: "run e s (xs @ ys) = run e (run e s xs) ys"
  by (simp add: run_def)

lemmas run_simps = run_Nil run_Cons

text \<open>What one step adds to the image requests sent and to the guide replies delivered.\<close>

lemma step_image_request:
  "ImageRequest q p \<in> set (net (step e s ev)) \<longleftrightarrow>
     ImageRequest q p \<in> set (net s)
     \<or> (\<exists>r g. ev = GuideReply q r \<and> q \<in> set (guide_inflight s)
          \<and> guide_result e r = Inr g \<and> member g ''imageGenPrompt'' = Some p
          \<and> truthy (Some p))"
proof (cases ev)
  case (SetLocation v)
  then show ?thesis by simp
next
  case Submit
  then show ?thesis by (simp add: handleGetGuide_def guide_catch_def Let_def)
next
  case (GuideReply q' r)
  show ?thesis
  proof (cases "q' \<in> set (guide_inflight s)")
    case False
    with GuideReply show ?thesis by auto
  next
    case True
    show ?thesis
    proof (cases e r rule: guide_settled_cases)
      case (thrown err)
      with GuideReply True show ?thesis by (simp add: guide_settled_thrown)
    next
      case null
      with GuideReply True show ?thesis by (simp add: guide_settled_null)
    next
      case (prompt g p')
      with GuideReply True show ?thesis
        by (auto simp add: guide_settled_prompt)
    next
      case (plain g)
      with GuideReply True show ?thesis by (auto simp add: guide_settled_plain)
    qed
  qed
next
  case (ImageReply q' r)
  then show ?thesis
    by (cases "image_result e r") (simp_all add: image_settled_def)
qed

lemma step_delivered:
  "(q, r) \<in> set (delivered (step e s ev)) \<longleftrightarrow>
     (q, r) \<in> set (delivered s) \<or> (ev = GuideReply q r \<and> q \<in> set (guide_inflight s))"
proof (cases ev)
  case (SetLocation v)
  then show ?thesis by simp
next
  case Submit
  then show ?thesis by (simp add: handleGetGuide_def guide_catch_def Let_def)
next
  case (GuideReply q' r')
  show ?thesis
  proof (cases "q' \<in> set (guide_inflight s)")
    case False
    with GuideReply show ?thesis by auto
  next
    case True
    with GuideReply show ?thesis
      by (cases e r' rule: guide_settled_cases)
        (auto simp add: guide_settled_thrown guide_settled_null guide_settled_prompt
          guide_settled_plain)
  qed
next
  case (ImageReply q' r')
  then show ?thesis
    by (cases "image_result e r'") (simp_all add: image_settled_def)
qed

lemma step_image_inflight:
  "q \<in> set (image_inflight (step e s ev)) \<Longrightarrow>
     q \<in> set (image_inflight s) \<or> (\<exists>p. ImageRequest q p \<in> set (net (step e s ev)))"
proof (cases ev)
  case (SetLocation v)
  assume "q \<in> set (image_inflight (step e s ev))"
  with SetLocation show ?thesis by simp
next
  case Submit
  assume "q \<in> set (image_inflight (step e s ev))"
  with Submit show ?thesis
    by (simp add: handleGetGuide_def guide_catch_def Let_def split: if_splits)
next
  case (GuideReply q' r)
  assume a: "q \<in> set (image_inflight (step e s ev))"
  show ?thesis
  proof (cases "q' \<in> set (guide_inflight s)")
    case False
    with GuideReply a show ?thesis by simp
  next
    case True
    with GuideReply a show ?thesis
      by (cases e r rule: guide_settled_cases)
        (auto simp add: guide_settled_thrown guide_settled_null guide_settled_prompt
          guide_settled_plain)
  qed
next
  case (ImageReply q' r)
  assume "q \<in> set (image_inflight (step e s ev))"
  with ImageReply show ?thesis
    by (cases "image_result e r") (auto simp add: image_settled_def split: if_splits)
qed

lemma step_guide_inflight:
  "x \<in> set (guide_inflight (step e s ev)) \<Longrightarrow> x \<in> set (guide_inflight s) \<or> x = searches s"
proof (cases ev)
  case (SetLocation v)
  assume "x \<in> set (guide_inflight (step e s ev))"
  with SetLocation show ?thesis by simp
next
  case Submit
  assume "x \<in> set (guide_inflight (step e s ev))"
  with Submit show ?thesis
    by (auto simp add: handleGetGuide_def guide_catch_def Let_def split: if_splits)
next
  case (GuideReply q r)
  assume a: "x \<in> set (guide_inflight (step e s ev))"
  show ?thesis
  proof (cases "q \<in> set (guide_inflight s)")
    case False
    with GuideReply a show ?thesis by simp
  next
    case True
    with GuideReply a show ?thesis
      by (cases e r rule: guide_settled_cases)
        (auto simp add: guide_settled_thrown guide_settled_null guide_settled_prompt
          guide_settled_plain split: if_splits)
  qed
next
  case (ImageReply q r)
  assume "x \<in> set (guide_inflight (step e s ev))"
  with ImageReply show ?thesis
    by (cases "image_result e r") (auto simp add: image_settled_def split: if_splits)
qed

lemma step_searches: "searches s \<le> searches (step e s ev)"
proof (cases ev)
  case (SetLocation v)
  then show ?thesis by simp
next
  case Submit
  then show ?thesis by (simp add: handleGetGuide_def guide_catch_def Let_def)
next
  case (GuideReply q r)
  then show ?thesis
    by (cases e r rule: guide_settled_cases)
      (simp_all add: guide_settled_thrown guide_settled_null guide_settled_prompt
        guide_settled_plain)
next
  case (ImageReply q r)
  then show ?thesis
    by (cases "image_result e r") (simp_all add: image_settled_def)
qed

lemma step_creates_image:
  assumes "imageUrl (step e s ev) = Some u" and "imageUrl s \<noteq> Some u"
  shows "\<exists>q r. ev = ImageReply q r \<and> q \<in> set (image_inflight s) \<and> image_result e r = Inr u"
proof (cases ev)
  case (SetLocation v)
  with assms show ?thesis by simp
next
  case Submit
  with assms show ?thesis
    by (simp add: handleGetGuide_def guide_catch_def Let_def split: if_splits)
next
  case (GuideReply q r)
  show ?thesis
  proof (cases "q \<in> set (guide_inflight s)")
    case False
    with GuideReply assms show ?thesis by simp
  next
    case True
    with GuideReply assms show ?thesis
      by (cases e r rule: guide_settled_cases)
        (simp_all add: guide_settled_thrown guide_settled_null guide_settled_prompt
          guide_settled_plain)
  qed
next
  case (ImageReply q r)
  with assms show ?thesis
    by (cases "image_result e r") (auto simp add: image_settled_def split: if_splits)
qed

subsection \<open>Invariants of every execution\<close>

lemma orderly_init: "orderly init_app"
  by (simp add: orderly_def init_app_def)

lemma orderly_idle: "orderly s \<Longrightarrow> \<not> loading s \<Longrightarrow> guide_inflight s = []"
  by (simp add: orderly_def)

lemma orderly_busy: "orderly s \<Longrightarrow> q \<in> set (guide_inflight s) \<Longrightarrow>
  guide_inflight s = [q] \<and> loading s \<and> Suc q = searches s"
  by (cases "loading s") (auto simp add: orderly_def)

lemma orderly_fresh: "orderly s \<Longrightarrow> ImageRequest (searches s) p \<notin> set (net s)"
  by (auto simp add: orderly_def)

lemma orderly_sent: "orderly s \<Longrightarrow> ImageRequest x p \<in> set (net s) \<Longrightarrow> x < searches s"
  by (auto simp add: orderly_def)

lemma orderly_handleGetGuide:
  assumes "orderly s" "\<not> loading s"
  shows "orderly (handleGetGuide e s)"
proof -
  from assms have "guide_inflight s = []" by (rule orderly_idle)
  with assms show ?thesis
    by (auto simp add: orderly_def handleGetGuide_def guide_catch_def Let_def less_Suc_eq)
qed

lemma orderly_guide_settled:
  assumes "orderly s" "q \<in> set (guide_inflight s)"
  shows "orderly (guide_settled e q r
     (s\<lparr> guide_inflight := removeAll q (guide_inflight s),
         delivered := delivered s @ [(q, r)] \<rparr>))"
proof -
  from assms have b: "guide_inflight s = [q]" "loading s" "Suc q = searches s"
    using orderly_busy by blast+
  from assms(1) have n: "\<forall>req \<in> set (net s). search_of req < searches s"
    by (simp add: orderly_def)
  show ?thesis
  proof (cases e r rule: guide_settled_cases)
    case (thrown err)
    with b n show ?thesis by (simp add: guide_settled_thrown orderly_def)
  next
    case null
    with b n show ?thesis by (simp add: guide_settled_null orderly_def)
  next
    case (prompt g p)
    with b n show ?thesis by (auto simp add: guide_settled_prompt orderly_def)
  next
    case (plain g)
    with b n show ?thesis by (simp add: guide_settled_plain orderly_def)
  qed
qed

lemma orderly_step: "orderly s \<Longrightarrow> orderly (step e s ev)"
proof (cases ev)
  case (SetLocation v)
  assume "orderly s"
  with SetLocation show ?thesis by (simp add: orderly_def)
next
  case Submit
  assume "orderly s"
  with Submit show ?thesis by (simp add: orderly_handleGetGuide)
next
  case (GuideReply q r)
  assume "orderly s"
  with GuideReply show ?thesis by (simp add: orderly_guide_settled)
next
  case (ImageReply q r)
  assume "orderly s"
  with ImageReply show ?thesis
    by (cases "image_result e r") (simp_all add: image_settled_def orderly_def)
qed

lemma orderly_run: "orderly s \<Longrightarrow> orderly (run e s evs)"
  by (induction evs arbitrary: s) (simp_all add: run_simps orderly_step)

lemma orderly_reachable: "orderly (run e init_app evs)"
  by (simp add: orderly_run orderly_init)

text \<open>
  An image request is in the log exactly for the delivered guide replies that parsed to
  a value with a truthy \<open>imageGenPrompt\<close>.
\<close>

lemma justified_step:
  assumes "\<And>q p. ImageRequest q p \<in> set (net s) \<longleftrightarrow>
     (\<exists>r g. (q, r) \<in> set (delivered s) \<and> guide_result e r = Inr g
        \<and> member g ''imageGenPrompt'' = Some p \<and> truthy (Some p))"
  shows "ImageRequest q p \<in> set (net (step e s ev)) \<longleftrightarrow>
     (\<exists>r g. (q, r) \<in> set (delivered (step e s ev)) \<and> guide_result e r = Inr g
        \<and> member g ''imageGenPrompt'' = Some p \<and> truthy (Some p))"
  unfolding step_image_request step_delivered assms by blast

lemma justified_run:
  assumes "\<And>q p. ImageRequest q p \<in> set (net s) \<longleftrightarrow>
     (\<exists>r g. (q, r) \<in> set (delivered s) \<and> guide_result e r = Inr g
        \<and> member g ''imageGenPrompt'' = Some p \<and> truthy (Some p))"
  shows "ImageRequest q p \<in> set (net (run e s evs)) \<longleftrightarrow>
     (\<exists>r g. (q, r) \<in> set (delivered (run e s evs)) \<and> guide_result e r = Inr g
        \<and> member g ''imageGenPrompt'' = Some p \<and> truthy (Some p))"
  using assms
proof (induction evs arbitrary: s q p)
  case Nil
  then show ?case by (simp add: run_Nil)
next
  case (Cons ev evs)
  show ?case
    unfolding run_Cons
    by (rule Cons.IH) (rule justified_step, rule Cons.prems)
qed

lemma justified_reachable:
  "ImageRequest q p \<in> set (net (run e init_app evs)) \<longleftrightarrow>
     (\<exists>r g. (q, r) \<in> set (delivered (run e init_app evs)) \<and> guide_result e r = Inr g
        \<and> member g ''imageGenPrompt'' = Some p \<and> truthy (Some p))"
  by (rule justified_run) (simp add: init_app_def)

lemma inflight_sent_run:
  assumes "\<And>q. q \<in> set (image_inflight s) \<Longrightarrow> \<exists>p. ImageRequest q p \<in> set (net s)"
  shows "q \<in> set (image_inflight (run e s evs)) \<Longrightarrow>
     \<exists>p. ImageRequest q p \<in> set (net (run e s evs))"
  using assms
proof (induction evs arbitrary: s q)
  case Nil
  then show ?case by (simp add: run_Nil)
next
  case (Cons ev evs)
  have "\<exists>p. ImageRequest x p \<in> set (net (step e s ev))"
    if "x \<in> set (image_inflight (step e s ev))" for x
    using step_image_inflight [OF that] Cons.prems(2) step_image_request by blast
  with Cons.IH [of q "step e s ev"] Cons.prems(1) show ?case
    by (simp add: run_Cons)
qed

lemma inflight_sent_reachable:
  "q \<in> set (image_inflight (run e init_app evs)) \<Longrightarrow>
     \<exists>p. ImageRequest q p \<in> set (net (run e init_app evs))"
  by (rule inflight_sent_run) (simp_all add: init_app_def)

text \<open>A search whose guide reply has been delivered gets no image request later.\<close>

lemma closed_step:
  assumes "q < searches s" and "q \<notin> set (guide_inflight s)"
  shows "q < searches (step e s ev)" and "q \<notin> set (guide_inflight (step e s ev))"
    and "ImageRequest q p \<in> set (net (step e s ev)) \<longleftrightarrow> ImageRequest q p \<in> set (net s)"
proof -
  from assms(1) step_searches [of s e ev] show "q < searches (step e s ev)" by simp
  from assms step_guide_inflight [of q e s ev]
  show "q \<notin> set (guide_inflight (step e s ev))" by auto
  from assms(2) show "ImageRequest q p \<in> set (net (step e s ev))
      \<longleftrightarrow> ImageRequest q p \<in> set (net s)"
    by (auto simp add: step_image_request)
qed

lemma closed_run:
  "q < searches s \<Longrightarrow> q \<notin> set (guide_inflight s) \<Longrightarrow>
   ImageRequest q p \<in> set (net (run e s evs)) \<longleftrightarrow> ImageRequest q p \<in> set (net s)"
proof (induction evs arbitrary: s)
  case Nil
  then show ?case by (simp add: run_Nil)
next
  case (Cons ev evs)
  from Cons.prems Cons.IH [of "step e s ev"] show ?case
    by (simp add: run_Cons closed_step)
qed

text \<open>While the guide request of a search is pending, nothing but its reply ends the wait.\<close>

lemma waiting_step:
  assumes "guide_inflight s = [q]" and "loading s" and "\<forall>r. ev \<noteq> GuideReply q r"
  shows "guide_inflight (step e s ev) = [q] \<and> loading (step e s ev)
    \<and> guide (step e s ev) = guide s \<and> error (step e s ev) = error s
    \<and> searches (step e s ev) = searches s"
proof (cases ev)
  case (SetLocation v)
  with assms show ?thesis by simp
next
  case Submit
  with assms show ?thesis by simp
next
  case (GuideReply q' r)
  with assms(3) have "q' \<noteq> q" by auto
  with GuideReply assms show ?thesis by simp
next
  case (ImageReply q' r)
  with assms show ?thesis
    by (cases "image_result e r") (simp_all add: image_settled_def)
qed

lemma waiting_run:
  "guide_inflight s = [q] \<Longrightarrow> loading s \<Longrightarrow> \<forall>r. GuideReply q r \<notin> set mid \<Longrightarrow>
   guide_inflight (run e s mid) = [q] \<and> loading (run e s mid)
    \<and> guide (run e s mid) = guide s \<and> error (run e s mid) = error s
    \<and> searches (run e s mid) = searches s
    \<and> (ImageRequest q p \<in> set (net (run e s mid)) \<longleftrightarrow> ImageRequest q p \<in> set (net s))"
proof (induction mid arbitrary: s)
  case Nil
  then show ?case by (simp add: run_Nil)
next
  case (Cons ev mid)
  from Cons.prems(3) have ne: "\<forall>r. ev \<noteq> GuideReply q r"
    and rest: "\<forall>r. GuideReply q r \<notin> set mid" by auto
  from waiting_step [OF Cons.prems(1,2) ne, of e]
  have st: "guide_inflight (step e s ev) = [q]" "loading (step e s ev)"
    "guide (step e s ev) = guide s" "error (step e s ev) = error s"
    "searches (step e s ev) = searches s" by simp_all
  from ne have nt: "ImageRequest q p \<in> set (net (step e s ev))
      \<longleftrightarrow> ImageRequest q p \<in> set (net s)"
    by (auto simp add: step_image_request)
  from Cons.IH [OF st(1,2) rest] st nt show ?case
    by (simp add: run_Cons)
qed

text \<open>
  During that wait no image request is sent, so an image stored meanwhile comes from
  the reply to an image request that was pending before.
\<close>

lemma waiting_inflight_step:
  assumes "guide_inflight s = [q]" and "loading s" and "\<forall>r. ev \<noteq> GuideReply q r"
  shows "set (image_inflight (step e s ev)) \<subseteq> set (image_inflight s)"
proof (cases ev)
  case (SetLocation v)
  then show ?thesis by simp
next
  case Submit
  with assms show ?thesis by simp
next
  case (GuideReply q' r)
  with assms(3) have "q' \<noteq> q" by auto
  with GuideReply assms show ?thesis by simp
next
  case (ImageReply q' r)
  then show ?thesis
    by (cases "image_result e r") (auto simp add: image_settled_def)
qed

lemma waiting_image_run:
  "guide_inflight s = [q] \<Longrightarrow> loading s \<Longrightarrow> \<forall>r. GuideReply q r \<notin> set mid \<Longrightarrow>
   \<forall>x \<in> set (image_inflight s). x < q \<Longrightarrow> imageUrl (run e s mid) = Some u \<Longrightarrow>
   imageUrl s = Some u
    \<or> (\<exists>q' ri. ImageReply q' ri \<in> set mid \<and> q' < q \<and> image_result e ri = Inr u)"
proof (induction mid arbitrary: s)
  case Nil
  then show ?case by (simp add: run_Nil)
next
  case (Cons ev mid)
  from Cons.prems(3) have ne: "\<forall>r. ev \<noteq> GuideReply q r"
    and rest: "\<forall>r. GuideReply q r \<notin> set mid" by auto
  from waiting_step [OF Cons.prems(1,2) ne, of e]
  have st: "guide_inflight (step e s ev) = [q]" "loading (step e s ev)" by simp_all
  from waiting_inflight_step [OF Cons.prems(1,2) ne, of e] Cons.prems(4)
  have inf: "\<forall>x \<in> set (image_inflight (step e s ev)). x < q" by auto
  from Cons.prems(5) have "imageUrl (run e (step e s ev) mid) = Some u"
    by (simp add: run_Cons)
  from Cons.IH [OF st rest inf this]
  consider (now) "imageUrl (step e s ev) = Some u"
    | (later) "\<exists>q' ri. ImageReply q' ri \<in> set mid \<and> q' < q \<and> image_result e ri = Inr u"
    by blast
  then show ?case
  proof cases
    case now
    show ?thesis
    proof (cases "imageUrl s = Some u")
      case True
      then show ?thesis by simp
    next
      case False
      from step_creates_image [OF now False] obtain q' ri where "ev = ImageReply q' ri"
        "q' \<in> set (image_inflight s)" "image_result e ri = Inr u" by blast
      with Cons.prems(4) show ?thesis by auto
    qed
  next
    case later
    then show ?thesis by auto
  qed
qed

lemma submit_idle:
  assumes "orderly s" and "\<not> loading s" and "location s \<noteq> []" and "key_present e"
  shows "step e s Submit =
      s\<lparr> loading := True, error := None, guide := JNull, imageUrl := None,
         searches := Suc (searches s),
         net := net s @ [GuideRequest (searches s) (location s)],
         guide_inflight := [searches s] \<rparr>"
proof -
  from assms(1,2) have "guide_inflight s = []" by (rule orderly_idle)
  with assms show ?thesis by (simp add: handleGetGuide_def Let_def)
qed

lemma submit_keyless:
  assumes "orderly s" and "\<not> loading s" and "location s \<noteq> []" and "\<not> key_present e"
  shows "step e s Submit =
      s\<lparr> loading := False, error := Some generic_message, guide := JNull,
         imageUrl := None, searches := Suc (searches s),
         console := console s @ [GuideDiag ApiKeyMissing] \<rparr>"
    and "guide_inflight (step e s Submit) = []"
proof -
  from assms(1,2) have i: "guide_inflight s = []" by (rule orderly_idle)
  from assms show "step e s Submit =
      s\<lparr> loading := False, error := Some generic_message, guide := JNull,
         imageUrl := None, searches := Suc (searches s),
         console := console s @ [GuideDiag ApiKeyMissing] \<rparr>"
    by (simp add: handleGetGuide_def guide_catch_def Let_def)
  with i show "guide_inflight (step e s Submit) = []" by simp
qed

subsection \<open>The sample inputs, evaluated\<close>

lemma key_present_sample: "key_present sample_env" "\<not> key_present keyless_env"
  by (simp_all add: key_present_def sample_env_def keyless_env_def)

lemma jsonResponseText_text_reply:
  "jsonResponseText (JObj [(''candidates'',
     JArr [JObj [(''content'', JObj [(''parts'', JArr [JObj [(''text'', JStr t)]])])]])])
   = Some (JStr t)"
  by (simp add: jsonResponseText_def)

lemma guide_result_text_reply:
  "t \<noteq> [] \<Longrightarrow> guide_result e (text_reply t) =
     (case JSON_parse e (JStr t) of None \<Rightarrow> Inl SyntaxError | Some g \<Rightarrow> Inr g)"
  by (simp add: guide_result_def text_reply_def ok_def jsonResponseText_text_reply)

lemma parse_rome: "JSON_parse sample_env (JStr rome_text) = Some rome_guide"
  by (simp add: sample_env_def sample_parse_def)

lemma parse_plain: "JSON_parse sample_env (JStr plain_text) = Some plain_guide"
  by (simp add: sample_env_def sample_parse_def rome_text_def plain_text_def)

lemma parse_empty_object: "JSON_parse sample_env (JStr ''{}'') = Some (JObj [])"
  by (simp add: sample_env_def sample_parse_def rome_text_def plain_text_def)

lemma parse_kyoto: "JSON_parse sample_env (JStr kyoto_text) = Some kyoto_guide"
  by (simp add: sample_env_def sample_parse_def rome_text_def plain_text_def kyoto_text_def)

lemma parse_garbage: "JSON_parse sample_env (JStr ''not json'') = None"
  by (simp add: sample_env_def sample_parse_def rome_text_def plain_text_def kyoto_text_def)

lemma text_nonempty: "rome_text \<noteq> []" "plain_text \<noteq> []" "kyoto_text \<noteq> []"
  by (simp_all add: rome_text_def plain_text_def kyoto_text_def)

lemma guide_result_kyoto: "guide_result sample_env (text_reply kyoto_text) = Inr kyoto_guide"
  by (simp add: guide_result_text_reply text_nonempty parse_kyoto)

lemma prompt_kyoto: "member kyoto_guide ''imageGenPrompt'' = Some (JStr ''A kaiseki course'')"
  by (simp add: kyoto_guide_def)

lemma guide_result_samples:
  "guide_result sample_env (text_reply rome_text) = Inr rome_guide"
  "guide_result sample_env (text_reply plain_text) = Inr plain_guide"
  "guide_result sample_env (text_reply ''{}'') = Inr (JObj [])"
  "guide_result sample_env (text_reply ''not json'') = Inl SyntaxError"
  by (simp_all add: guide_result_text_reply text_nonempty parse_rome parse_plain
      parse_empty_object parse_garbage)

lemma image_result_sample:
  "image_result e image_reply = Inr ''data:image/png;base64,iVBORw0KGgo=''"
  by (simp add: image_result_def image_reply_def ok_def)

lemma prompt_samples:
  "member rome_guide ''imageGenPrompt'' = Some (JStr ''A plate of carbonara'')"
  "member plain_guide ''imageGenPrompt'' = Some (JStr [])"
  by (simp_all add: rome_guide_def plain_guide_def)

lemma rome_submitted:
  "run sample_env init_app [SetLocation ''Rome'', Submit] =
     init_app\<lparr> location := ''Rome'', loading := True, searches := 1,
       net := [GuideRequest 0 ''Rome''], guide_inflight := [0] \<rparr>"
  by (simp add: run_simps handleGetGuide_def init_app_def key_present_sample Let_def)

lemma rome_answered:
  "run sample_env init_app [SetLocation ''Rome'', Submit, GuideReply 0 (text_reply rome_text)] =
     init_app\<lparr> location := ''Rome'', guide := rome_guide, isImageLoading := True,
       searches := 1,
       net := [GuideRequest 0 ''Rome'', ImageRequest 0 (JStr ''A plate of carbonara'')],
       image_inflight := [0], delivered := [(0, text_reply rome_text)] \<rparr>"
proof -
  have "run sample_env init_app [SetLocation ''Rome'', Submit, GuideReply 0 (text_reply rome_text)]
    = step sample_env (run sample_env init_app [SetLocation ''Rome'', Submit])
        (GuideReply 0 (text_reply rome_text))"
    by (simp only: run_simps)
  also have "\<dots> = init_app\<lparr> location := ''Rome'', guide := rome_guide, isImageLoading := True,
       searches := 1,
       net := [GuideRequest 0 ''Rome'', ImageRequest 0 (JStr ''A plate of carbonara'')],
       image_inflight := [0], delivered := [(0, text_reply rome_text)] \<rparr>"
    unfolding rome_submitted
    by (simp add: guide_settled_prompt [OF guide_result_samples(1) prompt_samples(1)]
        init_app_def)
  finally show ?thesis .
qed

lemma plain_answered:
  "run sample_env init_app [SetLocation ''Rome'', Submit, GuideReply 0 (text_reply plain_text)] =
     init_app\<lparr> location := ''Rome'', guide := plain_guide, searches := 1,
       net := [GuideRequest 0 ''Rome''], delivered := [(0, text_reply plain_text)] \<rparr>"
proof -
  have n: "plain_guide \<noteq> JNull" by (simp add: plain_guide_def)
  have p: "\<not> truthy (member plain_guide ''imageGenPrompt'')" by (simp add: prompt_samples)
  have "run sample_env init_app [SetLocation ''Rome'', Submit, GuideReply 0 (text_reply plain_text)]
    = step sample_env (run sample_env init_app [SetLocation ''Rome'', Submit])
        (GuideReply 0 (text_reply plain_text))"
    by (simp only: run_simps)
  also have "\<dots> = init_app\<lparr> location := ''Rome'', guide := plain_guide, searches := 1,
       net := [GuideRequest 0 ''Rome''], delivered := [(0, text_reply plain_text)] \<rparr>"
    unfolding rome_submitted
    by (simp add: guide_settled_plain [OF guide_result_samples(2) n p] init_app_def)
  finally show ?thesis .
qed

lemma superseded_state:
  "run sample_env init_app superseded_trace =
     init_app\<lparr> location := ''Kyoto'', loading := True, isImageLoading := True,
       searches := 2,
       net := [GuideRequest 0 ''Rome'', ImageRequest 0 (JStr ''A plate of carbonara''),
               GuideRequest 1 ''Kyoto''],
       guide_inflight := [1], image_inflight := [0],
       delivered := [(0, text_reply rome_text)] \<rparr>"
proof -
  have "run sample_env init_app superseded_trace
    = run sample_env (run sample_env init_app
        [SetLocation ''Rome'', Submit, GuideReply 0 (text_reply rome_text)])
        [SetLocation ''Kyoto'', Submit]"
    unfolding superseded_trace_def by (simp only: run_simps)
  also have "\<dots> = init_app\<lparr> location := ''Kyoto'', loading := True, isImageLoading := True,
       searches := 2,
       net := [GuideRequest 0 ''Rome'', ImageRequest 0 (JStr ''A plate of carbonara''),
               GuideRequest 1 ''Kyoto''],
       guide_inflight := [1], image_inflight := [0],
       delivered := [(0, text_reply rome_text)] \<rparr>"
    unfolding rome_answered
    by (simp add: run_simps handleGetGuide_def init_app_def key_present_sample Let_def)
  finally show ?thesis .
qed

lemma superseded_image_state:
  "run sample_env init_app (superseded_trace @ [ImageReply 0 image_reply]) =
     init_app\<lparr> location := ''Kyoto'', loading := True,
       imageUrl := Some ''data:image/png;base64,iVBORw0KGgo='', searches := 2,
       net := [GuideRequest 0 ''Rome'', ImageRequest 0 (JStr ''A plate of carbonara''),
               GuideRequest 1 ''Kyoto''],
       guide_inflight := [1], delivered := [(0, text_reply rome_text)] \<rparr>"
  unfolding run_append superseded_state
  by (simp add: run_simps init_app_def image_settled_url [OF image_result_sample])

lemma guide_result_500: "guide_result e (Response 500 None) = Inl (ApiRequestFailed 500)"
  by (simp add: guide_result_def ok_def)

lemma image_result_500: "image_result e (Response 500 None) = Inl (ImageGenerationFailed 500)"
  by (simp add: image_result_def ok_def)

lemma superseded_failed_state:
  "run sample_env init_app
     (superseded_trace @ [ImageReply 0 image_reply, GuideReply 1 (Response 500 None)]) =
     init_app\<lparr> location := ''Kyoto'', error := Some generic_message,
       imageUrl := Some ''data:image/png;base64,iVBORw0KGgo='', searches := 2,
       net := [GuideRequest 0 ''Rome'', ImageRequest 0 (JStr ''A plate of carbonara''),
               GuideRequest 1 ''Kyoto''],
       console := [GuideDiag (ApiRequestFailed 500)],
       delivered := [(0, text_reply rome_text), (1, Response 500 None)] \<rparr>"
proof -
  have "run sample_env init_app
     (superseded_trace @ [ImageReply 0 image_reply, GuideReply 1 (Response 500 None)])
    = step sample_env (run sample_env init_app (superseded_trace @ [ImageReply 0 image_reply]))
        (GuideReply 1 (Response 500 None))"
    by (simp only: run_append run_simps)
  also have "\<dots> = init_app\<lparr> location := ''Kyoto'', error := Some generic_message,
       imageUrl := Some ''data:image/png;base64,iVBORw0KGgo='', searches := 2,
       net := [GuideRequest 0 ''Rome'', ImageRequest 0 (JStr ''A plate of carbonara''),
               GuideRequest 1 ''Kyoto''],
       console := [GuideDiag (ApiRequestFailed 500)],
       delivered := [(0, text_reply rome_text), (1, Response 500 None)] \<rparr>"
    unfolding superseded_image_state
    by (simp add: guide_settled_thrown [OF guide_result_500] init_app_def)
  finally show ?thesis .
qed

lemma both_answered_state:
  "run sample_env init_app
     (superseded_trace @ [GuideReply 1 (text_reply kyoto_text), ImageReply 0 image_reply]) =
     init_app\<lparr> location := ''Kyoto'', guide := kyoto_guide,
       imageUrl := Some ''data:image/png;base64,iVBORw0KGgo='', searches := 2,
       net := [GuideRequest 0 ''Rome'', ImageRequest 0 (JStr ''A plate of carbonara''),
               GuideRequest 1 ''Kyoto'', ImageRequest 1 (JStr ''A kaiseki course'')],
       image_inflight := [1],
       delivered := [(0, text_reply rome_text), (1, text_reply kyoto_text)] \<rparr>"
proof -
  have "run sample_env init_app
     (superseded_trace @ [GuideReply 1 (text_reply kyoto_text), ImageReply 0 image_reply])
    = step sample_env (step sample_env (run sample_env init_app superseded_trace)
        (GuideReply 1 (text_reply kyoto_text))) (ImageReply 0 image_reply)"
    by (simp only: run_append run_simps)
  also have "\<dots> = init_app\<lparr> location := ''Kyoto'', guide := kyoto_guide,
       imageUrl := Some ''data:image/png;base64,iVBORw0KGgo='', searches := 2,
       net := [GuideRequest 0 ''Rome'', ImageRequest 0 (JStr ''A plate of carbonara''),
               GuideRequest 1 ''Kyoto'', ImageRequest 1 (JStr ''A kaiseki course'')],
       image_inflight := [1],
       delivered := [(0, text_reply rome_text), (1, text_reply kyoto_text)] \<rparr>"
    unfolding superseded_state
    by (simp add: guide_settled_prompt [OF guide_result_kyoto prompt_kyoto]
        image_settled_url [OF image_result_sample] init_app_def)
  finally show ?thesis .
qed

lemma kyoto_typed:
  "run sample_env init_app
     [SetLocation ''Rome'', Submit, GuideReply 0 (text_reply rome_text), SetLocation ''Kyoto''] =
     init_app\<lparr> location := ''Kyoto'', guide := rome_guide, isImageLoading := True,
       searches := 1,
       net := [GuideRequest 0 ''Rome'', ImageRequest 0 (JStr ''A plate of carbonara'')],
       image_inflight := [0], delivered := [(0, text_reply rome_text)] \<rparr>"
proof -
  have "run sample_env init_app
     [SetLocation ''Rome'', Submit, GuideReply 0 (text_reply rome_text), SetLocation ''Kyoto'']
    = step sample_env (run sample_env init_app
        [SetLocation ''Rome'', Submit, GuideReply 0 (text_reply rome_text)])
        (SetLocation ''Kyoto'')"
    by (simp only: run_simps)
  also have "\<dots> = init_app\<lparr> location := ''Kyoto'', guide := rome_guide, isImageLoading := True,
       searches := 1,
       net := [GuideRequest 0 ''Rome'', ImageRequest 0 (JStr ''A plate of carbonara'')],
       image_inflight := [0], delivered := [(0, text_reply rome_text)] \<rparr>"
    unfolding rome_answered by (simp add: init_app_def)
  finally show ?thesis .
qed

section \<open>The claims\<close>

subsection \<open>C1: a reply that outlives its search\<close>

text \<open>
  C1 as stated fails. Rome is searched, its guide arrives and the image request is
  sent; Kyoto is searched while that request is pending (search 2 has started, the
  image of search 0 is in flight, \<open>imageUrl\<close> is absent). When the image of Rome then
  arrives it is stored and the loading flag is cleared: the superseded reply changes
  the state of the newer search.
\<close>

theorem superseded_image_counterexample:
  "searches (run sample_env init_app superseded_trace) = 2
   \<and> guide_inflight (run sample_env init_app superseded_trace) = [1]
   \<and> image_inflight (run sample_env init_app superseded_trace) = [0]
   \<and> imageUrl (run sample_env init_app superseded_trace) = None
   \<and> isImageLoading (run sample_env init_app superseded_trace)
   \<and> imageUrl (step sample_env (run sample_env init_app superseded_trace)
        (ImageReply 0 image_reply)) = Some ''data:image/png;base64,iVBORw0KGgo=''
   \<and> \<not> isImageLoading (step sample_env (run sample_env init_app superseded_trace)
        (ImageReply 0 image_reply))"
  unfolding superseded_state
  by (simp add: init_app_def image_settled_url [OF image_result_sample])

text \<open>
  C1, amended. The reply to a pending image request is applied whatever has been
  submitted since: it clears \<open>isImageLoading\<close> and, when it succeeds, stores its image
  in \<open>imageUrl\<close>; it never changes \<open>guide\<close>, \<open>loading\<close> or \<open>error\<close>. A guide reply is
  never superseded: in every execution a pending guide request belongs to the newest
  search, and submitting while it is pending does nothing.
\<close>

theorem superseded_image_reply_applied:
  assumes "q \<in> set (image_inflight s)"
  shows "step e s (ImageReply q r) =
      (case image_result e r of
         Inr u \<Rightarrow> s\<lparr> image_inflight := removeAll q (image_inflight s),
                    imageUrl := Some u, isImageLoading := False \<rparr>
       | Inl err \<Rightarrow> s\<lparr> image_inflight := removeAll q (image_inflight s),
                    console := console s @ [ImageDiag err], isImageLoading := False \<rparr>)
    \<and> guide (step e s (ImageReply q r)) = guide s
    \<and> loading (step e s (ImageReply q r)) = loading s
    \<and> error (step e s (ImageReply q r)) = error s
    \<and> (x \<in> set (guide_inflight (run e init_app evs)) \<longrightarrow>
          Suc x = searches (run e init_app evs)
          \<and> step e (run e init_app evs) Submit = run e init_app evs)"
proof -
  have "Suc x = searches (run e init_app evs)
      \<and> step e (run e init_app evs) Submit = run e init_app evs"
    if "x \<in> set (guide_inflight (run e init_app evs))"
    using orderly_busy [OF orderly_reachable that] by simp
  with assms show ?thesis
    by (cases "image_result e r") (simp_all add: image_settled_def)
qed

theorem superseded_image_reply_applied_witness:
  "0 \<in> set (image_inflight (run sample_env init_app superseded_trace))
   \<and> searches (run sample_env init_app superseded_trace) = 2
   \<and> step sample_env (run sample_env init_app superseded_trace) (ImageReply 0 image_reply)
       = (run sample_env init_app superseded_trace)
           \<lparr> image_inflight := [], imageUrl := Some ''data:image/png;base64,iVBORw0KGgo='',
              isImageLoading := False \<rparr>
   \<and> 1 \<in> set (guide_inflight (run sample_env init_app superseded_trace))
   \<and> step sample_env (run sample_env init_app superseded_trace) Submit
       = run sample_env init_app superseded_trace"
proof -
  let ?s = "run sample_env init_app superseded_trace"
  have a: "0 \<in> set (image_inflight ?s)" and b: "1 \<in> set (guide_inflight ?s)"
    and c: "searches ?s = 2" and d: "removeAll 0 (image_inflight ?s) = []"
    unfolding superseded_state by simp_all
  from superseded_image_reply_applied [OF a, where e = sample_env and r = image_reply
      and x = 1 and evs = superseded_trace] a b c d
  show ?thesis by (simp add: image_result_sample)
qed

subsection \<open>C2: empty and blank locations\<close>

text \<open>
  C2 as stated fails for a location of two spaces: with a key configured the guide
  request is sent and no error is set.
\<close>

theorem whitespace_submit_counterexample:
  "net (handleGetGuide sample_env (init_app\<lparr> location := ''  '' \<rparr>)) = [GuideRequest 0 ''  '']
   \<and> guide_inflight (handleGetGuide sample_env (init_app\<lparr> location := ''  '' \<rparr>)) = [0]
   \<and> error (handleGetGuide sample_env (init_app\<lparr> location := ''  '' \<rparr>)) = None"
  by (simp add: handleGetGuide_def init_app_def key_present_sample Let_def)

text \<open>
  C2, amended. For the empty location, \<open>handleGetGuide\<close> sends no request and sets
  \<open>error\<close> to the empty-query message. Every other location, one of blanks only
  included, is not rejected: with a key configured its guide request is sent and
  \<open>error\<close> is cleared.
\<close>

theorem empty_submit_no_request:
  "(location s = [] \<longrightarrow>
      net (handleGetGuide e s) = net s
      \<and> guide_inflight (handleGetGuide e s) = guide_inflight s
      \<and> image_inflight (handleGetGuide e s) = image_inflight s
      \<and> error (handleGetGuide e s) = Some empty_message)
   \<and> (location s \<noteq> [] \<and> key_present e \<longrightarrow>
      net (handleGetGuide e s) = net s @ [GuideRequest (searches s) (location s)]
      \<and> error (handleGetGuide e s) = None)"
  by (simp add: handleGetGuide_def Let_def)

theorem empty_submit_no_request_witness:
  "location init_app = []
   \<and> net (handleGetGuide sample_env init_app) = []
   \<and> error (handleGetGuide sample_env init_app) = Some ''Please enter a country or city.''
   \<and> location (init_app\<lparr> location := '' '' \<rparr>) \<noteq> [] \<and> key_present sample_env
   \<and> net (handleGetGuide sample_env (init_app\<lparr> location := '' '' \<rparr>)) = [GuideRequest 0 '' '']"
  using empty_submit_no_request [of init_app sample_env]
    empty_submit_no_request [of "init_app\<lparr> location := '' '' \<rparr>" sample_env]
  by (simp add: init_app_def key_present_sample empty_message_def)

subsection \<open>C3: the parsed guide is not validated\<close>

text \<open>
  C3 as stated fails: the text \<open>{}\<close> parses as JSON and has none of the five fields,
  yet it is stored as the guide and no error is set.
\<close>

theorem missing_fields_counterexample:
  "guide (step sample_env (handleGetGuide sample_env (init_app\<lparr> location := ''Rome'' \<rparr>))
      (GuideReply 0 (text_reply ''{}''))) = JObj []
   \<and> error (step sample_env (handleGetGuide sample_env (init_app\<lparr> location := ''Rome'' \<rparr>))
      (GuideReply 0 (text_reply ''{}''))) = None"
  by (simp add: handleGetGuide_def init_app_def key_present_sample Let_def
      guide_settled_def guide_result_samples)

text \<open>
  C3, amended. The fields of the parsed payload are not checked. When the nested text
  of a successful response parses, the parsed value is stored as the guide whatever
  fields it has, and unless it is \<open>null\<close> the error is left as it was. Only a text that
  does not parse is treated as invalid: the guide is not stored and the error is set.
\<close>

theorem parsed_guide_stored_unvalidated:
  assumes "q \<in> set (guide_inflight s)" and "ok status" and "result \<noteq> JNull"
    and "jsonResponseText result = Some t" and "truthy (Some t)"
  shows "(JSON_parse e t = Some g \<longrightarrow>
           guide (step e s (GuideReply q (Response status (Some result)))) = g
           \<and> (g \<noteq> JNull \<longrightarrow>
                error (step e s (GuideReply q (Response status (Some result)))) = error s))
    \<and> (JSON_parse e t = None \<longrightarrow>
           guide (step e s (GuideReply q (Response status (Some result)))) = guide s
           \<and> error (step e s (GuideReply q (Response status (Some result))))
               = Some generic_message)"
proof -
  let ?r = "Response status (Some result)"
  have res: "guide_result e ?r =
      (case JSON_parse e t of None \<Rightarrow> Inl SyntaxError | Some g \<Rightarrow> Inr g)"
    using assms(2-5) by (rule guide_result_Response)
  have parsed: "guide (step e s (GuideReply q ?r)) = g
      \<and> (g \<noteq> JNull \<longrightarrow> error (step e s (GuideReply q ?r)) = error s)"
    if p: "JSON_parse e t = Some g"
  proof -
    from res p have r: "guide_result e ?r = Inr g" by simp
    show ?thesis
    proof (cases "g = JNull")
      case True
      with r assms(1) show ?thesis by (simp add: guide_settled_null)
    next
      case False
      with r assms(1) show ?thesis
        by (cases e ?r rule: guide_settled_cases)
          (simp_all add: guide_settled_prompt guide_settled_plain)
    qed
  qed
  have unparsed: "guide (step e s (GuideReply q ?r)) = guide s
      \<and> error (step e s (GuideReply q ?r)) = Some generic_message"
    if p: "JSON_parse e t = None"
  proof -
    from res p have "guide_result e ?r = Inl SyntaxError" by simp
    with assms(1) show ?thesis by (simp add: guide_settled_thrown)
  qed
  from parsed unparsed show ?thesis by blast
qed

theorem parsed_guide_stored_unvalidated_witness:
  "0 \<in> set (guide_inflight (handleGetGuide sample_env (init_app\<lparr> location := ''Rome'' \<rparr>)))
   \<and> ok 200
   \<and> JSON_parse sample_env (JStr ''{}'') = Some (JObj [])
   \<and> guide (step sample_env (handleGetGuide sample_env (init_app\<lparr> location := ''Rome'' \<rparr>))
        (GuideReply 0 (text_reply ''{}''))) = JObj []
   \<and> JSON_parse sample_env (JStr ''not json'') = None
   \<and> error (step sample_env (handleGetGuide sample_env (init_app\<lparr> location := ''Rome'' \<rparr>))
        (GuideReply 0 (text_reply ''not json'')))
       = Some ''Could not fetch the guide. The Culinary Compass is recalibrating!''"
proof -
  let ?s = "handleGetGuide sample_env (init_app\<lparr> location := ''Rome'' \<rparr>)"
  let ?result = "\<lambda>t. JObj [(''candidates'',
     JArr [JObj [(''content'', JObj [(''parts'', JArr [JObj [(''text'', JStr t)]])])]])]"
  have a: "0 \<in> set (guide_inflight ?s)"
    by (simp add: handleGetGuide_def init_app_def key_present_sample Let_def)
  have b: "ok 200" by (simp add: ok_def)
  have c: "?result t \<noteq> JNull" for t by simp
  have d: "jsonResponseText (?result t) = Some (JStr t)" for t
    by (rule jsonResponseText_text_reply)
  have e1: "truthy (Some (JStr ''{}''))" and e2: "truthy (Some (JStr ''not json''))" by simp_all
  from parsed_guide_stored_unvalidated [OF a b c d e1, of sample_env "JObj []"]
    parsed_guide_stored_unvalidated [OF a b c d e2, of sample_env "JNull"]
  show ?thesis using a b
    by (simp add: parse_empty_object parse_garbage text_reply_def generic_message_def)
qed

subsection \<open>C4: when the image is requested\<close>

text \<open>
  C4 as stated fails. The guide reply carries all five fields, with an empty string as
  \<open>imageGenPrompt\<close>: the guide is stored, no error is set, loading ends, and the only
  request ever sent is the guide request. The guide request succeeded and
  \<open>handleGenerateImage\<close> was not called.
\<close>

theorem image_not_requested_counterexample:
  "guide (run sample_env init_app
      [SetLocation ''Rome'', Submit, GuideReply 0 (text_reply plain_text)]) = plain_guide
   \<and> error (run sample_env init_app
      [SetLocation ''Rome'', Submit, GuideReply 0 (text_reply plain_text)]) = None
   \<and> \<not> loading (run sample_env init_app
      [SetLocation ''Rome'', Submit, GuideReply 0 (text_reply plain_text)])
   \<and> net (run sample_env init_app
      [SetLocation ''Rome'', Submit, GuideReply 0 (text_reply plain_text)])
       = [GuideRequest 0 ''Rome'']"
  unfolding plain_answered by (simp add: init_app_def)

text \<open>
  C4, amended. At every point of every execution, the image request of a search with
  prompt \<open>p\<close> has been sent if and only if the guide reply of that search has been
  delivered, parsed to a guide, and that guide has the truthy \<open>imageGenPrompt\<close> \<open>p\<close>.
  So the image is never requested before the guide of the same search has succeeded,
  and it is requested whenever that guide has a non-empty prompt.
\<close>

theorem image_requested_iff_prompt:
  "ImageRequest q p \<in> set (net (run e init_app evs)) \<longleftrightarrow>
     (\<exists>r g. (q, r) \<in> set (delivered (run e init_app evs)) \<and> guide_result e r = Inr g
        \<and> member g ''imageGenPrompt'' = Some p \<and> truthy (Some p))"
  by (rule justified_run) (simp add: init_app_def)

theorem image_requested_iff_prompt_witness:
  "ImageRequest 0 (JStr ''A plate of carbonara'') \<in> set (net (run sample_env init_app
      [SetLocation ''Rome'', Submit, GuideReply 0 (text_reply rome_text)]))
   \<and> (\<exists>r g. (0, r) \<in> set (delivered (run sample_env init_app
          [SetLocation ''Rome'', Submit, GuideReply 0 (text_reply rome_text)]))
        \<and> guide_result sample_env r = Inr g
        \<and> member g ''imageGenPrompt'' = Some (JStr ''A plate of carbonara'')
        \<and> truthy (Some (JStr ''A plate of carbonara'')))
   \<and> ImageRequest 0 (JStr []) \<notin> set (net (run sample_env init_app
      [SetLocation ''Rome'', Submit, GuideReply 0 (text_reply plain_text)]))"
proof -
  have a: "ImageRequest 0 (JStr []) \<notin> set (net (run sample_env init_app
      [SetLocation ''Rome'', Submit, GuideReply 0 (text_reply plain_text)]))"
    unfolding plain_answered by simp
  have c: "ImageRequest 0 (JStr ''A plate of carbonara'') \<in> set (net (run sample_env init_app
      [SetLocation ''Rome'', Submit, GuideReply 0 (text_reply rome_text)]))"
    unfolding rome_answered by simp
  from c image_requested_iff_prompt [of 0 "JStr ''A plate of carbonara''" sample_env
      "[SetLocation ''Rome'', Submit, GuideReply 0 (text_reply rome_text)]"]
  have "\<exists>r g. (0, r) \<in> set (delivered (run sample_env init_app
          [SetLocation ''Rome'', Submit, GuideReply 0 (text_reply rome_text)]))
        \<and> guide_result sample_env r = Inr g
        \<and> member g ''imageGenPrompt'' = Some (JStr ''A plate of carbonara'')
        \<and> truthy (Some (JStr ''A plate of carbonara''))"
    by blast
  with a c show ?thesis by blast
qed

subsection \<open>C5: a failing image request\<close>

text \<open>
  C5 as stated fails in its clause that the failure leaves \<open>imageUrl\<close> absent. Rome is
  searched and its image request is pending; Kyoto is searched, its guide arrives and
  its image request is sent; the image of Rome arrives and is stored; the image
  request of Kyoto is answered with status 500. The failing request leaves the image
  of Rome in \<open>imageUrl\<close>, beside the guide of Kyoto.
\<close>

theorem failed_image_keeps_older_counterexample:
  "1 \<in> set (image_inflight (run sample_env init_app
      (superseded_trace @ [GuideReply 1 (text_reply kyoto_text), ImageReply 0 image_reply])))
   \<and> image_result sample_env (Response 500 None) = Inl (ImageGenerationFailed 500)
   \<and> guide (step sample_env (run sample_env init_app
      (superseded_trace @ [GuideReply 1 (text_reply kyoto_text), ImageReply 0 image_reply]))
      (ImageReply 1 (Response 500 None))) = kyoto_guide
   \<and> imageUrl (step sample_env (run sample_env init_app
      (superseded_trace @ [GuideReply 1 (text_reply kyoto_text), ImageReply 0 image_reply]))
      (ImageReply 1 (Response 500 None))) = Some ''data:image/png;base64,iVBORw0KGgo=''"
  unfolding both_answered_state
  by (simp add: init_app_def image_settled_thrown [OF image_result_500] image_result_500)

text \<open>
  C5, amended. When the reply to a pending image request makes \<open>handleGenerateImage\<close>
  throw, the state changes in one place only: \<open>isImageLoading\<close> is cleared (the thrown
  value goes to the console). \<open>error\<close>, \<open>guide\<close>, \<open>loading\<close>, \<open>location\<close> and
  \<open>imageUrl\<close> are left as they were: \<open>imageUrl\<close> is absent afterwards if it was absent
  before, as it is when the failure answers the call that started the request, and an
  image stored in between by the reply of another search stays. A status outside 200
  to 299, a missing \<open>predictions\<close>, an empty list of predictions, and a first
  prediction without a non-empty \<open>bytesBase64Encoded\<close> all make it throw.
\<close>

theorem image_failure_frame:
  assumes "q \<in> set (image_inflight s)" and "image_result e r = Inl err"
  shows "step e s (ImageReply q r) =
      s\<lparr> image_inflight := removeAll q (image_inflight s),
         console := console s @ [ImageDiag err], isImageLoading := False \<rparr>
    \<and> error (step e s (ImageReply q r)) = error s
    \<and> guide (step e s (ImageReply q r)) = guide s
    \<and> imageUrl (step e s (ImageReply q r)) = imageUrl s
    \<and> loading (step e s (ImageReply q r)) = loading s
    \<and> location (step e s (ImageReply q r)) = location s
    \<and> \<not> isImageLoading (step e s (ImageReply q r))
    \<and> imageUrl (step e (handleGenerateImage q p s0) (ImageReply q r)) = None
    \<and> (\<not> ok status \<longrightarrow>
         image_result e (Response status body) = Inl (ImageGenerationFailed status))
    \<and> (ok status \<and> result \<noteq> JNull
         \<and> (member result ''predictions'' = None
            \<or> member result ''predictions'' = Some (JArr [])) \<longrightarrow>
         image_result e (Response status (Some result)) = Inl InvalidImageStructure)
    \<and> (ok status \<and> member result ''predictions'' = Some (JArr (x # xs))
         \<and> \<not> truthy (opt_member (Some x) ''bytesBase64Encoded'') \<longrightarrow>
         (\<exists>err'. image_result e (Response status (Some result)) = Inl err'))"
proof -
  from assms have "step e s (ImageReply q r) =
      s\<lparr> image_inflight := removeAll q (image_inflight s),
         console := console s @ [ImageDiag err], isImageLoading := False \<rparr>"
    by (simp add: image_settled_thrown)
  moreover from assms(2)
  have "imageUrl (step e (handleGenerateImage q p s0) (ImageReply q r)) = None"
    by (simp add: image_settled_thrown handleGenerateImage_def)
  ultimately show ?thesis
    using image_result_status [of status e body]
      image_result_no_predictions [of status result e]
      image_result_no_bytes [of status result x xs e]
    by simp
qed

theorem image_failure_frame_witness:
  "0 \<in> set (image_inflight (run sample_env init_app
      [SetLocation ''Rome'', Submit, GuideReply 0 (text_reply rome_text)]))
   \<and> \<not> ok 500
   \<and> image_result sample_env (Response 500 None) = Inl (ImageGenerationFailed 500)
   \<and> ok 200
   \<and> member (JObj [(''predictions'', JArr [])]) ''predictions'' = Some (JArr [])
   \<and> image_result sample_env (Response 200 (Some (JObj [(''predictions'', JArr [])])))
       = Inl InvalidImageStructure
   \<and> member (JObj [(''predictions'', JArr [JObj []])]) ''predictions'' = Some (JArr [JObj []])
   \<and> \<not> truthy (opt_member (Some (JObj [])) ''bytesBase64Encoded'')
   \<and> (\<exists>err. image_result sample_env
         (Response 200 (Some (JObj [(''predictions'', JArr [JObj []])]))) = Inl err)
   \<and> step sample_env (run sample_env init_app
      [SetLocation ''Rome'', Submit, GuideReply 0 (text_reply rome_text)])
        (ImageReply 0 (Response 500 None))
     = init_app\<lparr> location := ''Rome'', guide := rome_guide, searches := 1,
       net := [GuideRequest 0 ''Rome'', ImageRequest 0 (JStr ''A plate of carbonara'')],
       delivered := [(0, text_reply rome_text)],
       console := [ImageDiag (ImageGenerationFailed 500)] \<rparr>"
proof -
  let ?s = "run sample_env init_app
      [SetLocation ''Rome'', Submit, GuideReply 0 (text_reply rome_text)]"
  have a: "0 \<in> set (image_inflight ?s)" unfolding rome_answered by simp
  have n: "\<not> ok 500" and k: "ok 200" by (simp_all add: ok_def)
  have b: "image_result sample_env (Response 500 None) = Inl (ImageGenerationFailed 500)"
    using n by (simp add: image_result_def)
  have m1: "member (JObj [(''predictions'', JArr [])]) ''predictions'' = Some (JArr [])"
    and m2: "member (JObj [(''predictions'', JArr [JObj []])]) ''predictions''
      = Some (JArr [JObj []])"
    and m3: "\<not> truthy (opt_member (Some (JObj [])) ''bytesBase64Encoded'')"
    by simp_all
  note empty = image_failure_frame [OF a b, where status = 200
      and result = "JObj [(''predictions'', JArr [])]"]
  note first = image_failure_frame [OF a b, where status = 200
      and result = "JObj [(''predictions'', JArr [JObj []])]" and x = "JObj []" and xs = "[]"]
  from empty k m1
  have c: "image_result sample_env (Response 200 (Some (JObj [(''predictions'', JArr [])])))
       = Inl InvalidImageStructure" by simp
  from first k m2 m3
  have d: "\<exists>err. image_result sample_env
         (Response 200 (Some (JObj [(''predictions'', JArr [JObj []])]))) = Inl err"
    by blast
  from empty have
    "step sample_env ?s (ImageReply 0 (Response 500 None))
      = ?s\<lparr> image_inflight := removeAll 0 (image_inflight ?s),
           console := console ?s @ [ImageDiag (ImageGenerationFailed 500)],
           isImageLoading := False \<rparr>" by blast
  also have "\<dots> = init_app\<lparr> location := ''Rome'', guide := rome_guide, searches := 1,
       net := [GuideRequest 0 ''Rome'', ImageRequest 0 (JStr ''A plate of carbonara'')],
       delivered := [(0, text_reply rome_text)],
       console := [ImageDiag (ImageGenerationFailed 500)] \<rparr>"
    unfolding rome_answered by (simp add: init_app_def)
  finally show ?thesis using a n b k m1 m2 m3 c d by blast
qed

subsection \<open>C6: a failing guide request\<close>

text \<open>
  C6 as stated fails in its clause that the prior image state is replaced in the final
  state. Rome is searched and its image request is pending; Kyoto is submitted; the
  image of Rome arrives and is stored; the guide request of Kyoto is answered with
  status 500. The final state has the error, no guide, and the image of Rome.
\<close>

theorem failed_guide_keeps_image_counterexample:
  "guide_result sample_env (Response 500 None) = Inl (ApiRequestFailed 500)
   \<and> error (run sample_env init_app
        (superseded_trace @ [ImageReply 0 image_reply, GuideReply 1 (Response 500 None)]))
       = Some ''Could not fetch the guide. The Culinary Compass is recalibrating!''
   \<and> guide (run sample_env init_app
        (superseded_trace @ [ImageReply 0 image_reply, GuideReply 1 (Response 500 None)]))
       = JNull
   \<and> imageUrl (run sample_env init_app
        (superseded_trace @ [ImageReply 0 image_reply, GuideReply 1 (Response 500 None)]))
       = Some ''data:image/png;base64,iVBORw0KGgo=''"
  unfolding superseded_failed_state
  by (simp add: init_app_def generic_message_def guide_result_500)

text \<open>
  C6, amended. In any execution, let a non-empty location be submitted while nothing is
  loading. The submit clears the guide and the image shown before. If the search then
  fails at the guide stage (the key is missing; or, whatever else happens in between,
  the reply to its guide request makes \<open>handleGetGuide\<close> throw, as a status 500 does),
  the state in which it has failed has \<open>error\<close> set to the generic message and no
  guide, and no image request of that search is in the log then or at any later time.
  That state has no image either, unless the image request of an earlier search was
  answered with success between the submit and the failure: only such a reply puts an
  image there.
\<close>

theorem guide_failure_blocks:
  assumes "s = run e init_app evs" and "\<not> loading s" and "location s \<noteq> []"
    and "\<forall>r'. GuideReply (searches s) r' \<notin> set mid"
    and "(\<exists>err. guide_result e r = Inl err) \<or> guide_result e r = Inr JNull"
    and "s' = (if key_present e
               then run e (step e s Submit) (mid @ [GuideReply (searches s) r])
               else step e s Submit)"
  shows "guide (step e s Submit) = JNull \<and> imageUrl (step e s Submit) = None
    \<and> error s' = Some generic_message \<and> guide s' = JNull \<and> \<not> loading s'
    \<and> ImageRequest (searches s) p \<notin> set (net (run e s' later))
    \<and> (imageUrl s' = Some u \<longrightarrow>
         (\<exists>q' ri. ImageReply q' ri \<in> set mid \<and> q' < searches s
            \<and> image_result e ri = Inr u))
    \<and> ((\<forall>q' ri. ImageReply q' ri \<notin> set mid) \<longrightarrow> imageUrl s' = None)"
proof (cases "key_present e")
  case True
  let ?q = "searches s"
  let ?s1 = "step e s Submit"
  let ?s2 = "run e ?s1 mid"
  from assms(1) have o: "orderly s" by (simp add: orderly_reachable)
  note s1 = submit_idle [OF o assms(2,3) True]
  from s1 have a: "guide_inflight ?s1 = [?q]" "loading ?s1" "guide ?s1 = JNull"
    "imageUrl ?s1 = None" "searches ?s1 = Suc ?q" by simp_all
  from s1 orderly_fresh [OF o] have n1: "ImageRequest ?q p \<notin> set (net ?s1)" by simp
  from waiting_run [OF a(1,2) assms(4), of e p] a n1
  have b: "guide_inflight ?s2 = [?q]" "guide ?s2 = JNull" "searches ?s2 = Suc ?q"
    "ImageRequest ?q p \<notin> set (net ?s2)" by simp_all
  from assms(6) True have s': "s' = step e ?s2 (GuideReply ?q r)"
    by (simp add: run_append run_simps)
  from assms(5) b s' have c: "error s' = Some generic_message \<and> guide s' = JNull
      \<and> \<not> loading s' \<and> guide_inflight s' = [] \<and> searches s' = Suc ?q
      \<and> net s' = net ?s2 \<and> imageUrl s' = imageUrl ?s2"
    by (auto simp add: guide_settled_thrown guide_settled_null)
  then have never: "ImageRequest ?q p \<in> set (net (run e s' later))
      \<longleftrightarrow> ImageRequest ?q p \<in> set (net s')"
    by (intro closed_run) simp_all
  have older: "\<forall>x \<in> set (image_inflight ?s1). x < ?q"
  proof
    fix x
    assume "x \<in> set (image_inflight ?s1)"
    with s1 have "x \<in> set (image_inflight (run e init_app evs))"
      by (simp add: assms(1))
    from inflight_sent_reachable [OF this] obtain px
      where "ImageRequest x px \<in> set (net s)" unfolding assms(1) ..
    with o show "x < ?q" by (rule orderly_sent)
  qed
  have img: "\<exists>q' ri. ImageReply q' ri \<in> set mid \<and> q' < ?q \<and> image_result e ri = Inr u"
    if "imageUrl s' = Some u"
  proof -
    from that c have "imageUrl ?s2 = Some u" by simp
    from waiting_image_run [OF a(1,2) assms(4) older this] a(4) show ?thesis by simp
  qed
  have none: "imageUrl s' = None" if h: "\<forall>q' ri. ImageReply q' ri \<notin> set mid"
  proof (cases "imageUrl s'")
    case None
    then show ?thesis .
  next
    case (Some v)
    from c Some have "imageUrl ?s2 = Some v" by simp
    from waiting_image_run [OF a(1,2) assms(4) older this] a(4) h show ?thesis by simp
  qed
  from a b c never img none show ?thesis by simp
next
  case False
  let ?q = "searches s"
  from assms(1) have o: "orderly s" by (simp add: orderly_reachable)
  note k = submit_keyless [OF o assms(2,3) False]
  from assms(6) False have s': "s' = step e s Submit" by simp
  from k s' have c: "error s' = Some generic_message" "guide s' = JNull" "\<not> loading s'"
    "imageUrl s' = None" "guide_inflight s' = []" "searches s' = Suc ?q" "net s' = net s"
    by simp_all
  then have "ImageRequest ?q p \<in> set (net (run e s' later))
      \<longleftrightarrow> ImageRequest ?q p \<in> set (net s')"
    by (intro closed_run) simp_all
  with c s' orderly_fresh [OF o, of p] show ?thesis by simp
qed

theorem guide_failure_blocks_witness:
  "\<not> loading (run sample_env init_app
      [SetLocation ''Rome'', Submit, GuideReply 0 (text_reply rome_text), SetLocation ''Kyoto''])
   \<and> location (run sample_env init_app
      [SetLocation ''Rome'', Submit, GuideReply 0 (text_reply rome_text), SetLocation ''Kyoto''])
       \<noteq> []
   \<and> searches (run sample_env init_app
      [SetLocation ''Rome'', Submit, GuideReply 0 (text_reply rome_text), SetLocation ''Kyoto''])
       = 1
   \<and> (\<forall>r'. GuideReply 1 r' \<notin> set [ImageReply 0 image_reply])
   \<and> guide_result sample_env (Response 500 None) = Inl (ApiRequestFailed 500)
   \<and> key_present sample_env
   \<and> error (run sample_env init_app
        (superseded_trace @ [ImageReply 0 image_reply, GuideReply 1 (Response 500 None)]))
       = Some ''Could not fetch the guide. The Culinary Compass is recalibrating!''
   \<and> guide (run sample_env init_app
        (superseded_trace @ [ImageReply 0 image_reply, GuideReply 1 (Response 500 None)]))
       = JNull
   \<and> ImageRequest 1 (JStr ''A kaiseki course'') \<notin> set (net (run sample_env init_app
        (superseded_trace @ [ImageReply 0 image_reply, GuideReply 1 (Response 500 None)])))
   \<and> imageUrl (run sample_env init_app
        (superseded_trace @ [ImageReply 0 image_reply, GuideReply 1 (Response 500 None)]))
       = Some ''data:image/png;base64,iVBORw0KGgo=''
   \<and> (\<exists>q' ri. ImageReply q' ri \<in> set [ImageReply 0 image_reply] \<and> q' < 1
         \<and> image_result sample_env ri = Inr ''data:image/png;base64,iVBORw0KGgo='')
   \<and> (\<forall>q' ri. ImageReply q' ri \<notin> set [SetLocation ''Nara''])
   \<and> imageUrl (run sample_env init_app
        (superseded_trace @ [SetLocation ''Nara'', GuideReply 1 (Response 500 None)])) = None
   \<and> \<not> key_present keyless_env
   \<and> error (run keyless_env init_app [SetLocation ''Rome'', Submit])
       = Some ''Could not fetch the guide. The Culinary Compass is recalibrating!''
   \<and> guide (run keyless_env init_app [SetLocation ''Rome'', Submit]) = JNull"
proof -
  let ?evs = "[SetLocation ''Rome'', Submit, GuideReply 0 (text_reply rome_text),
      SetLocation ''Kyoto'']"
  let ?s = "run sample_env init_app ?evs"
  let ?u = "''data:image/png;base64,iVBORw0KGgo=''"
  let ?final = "run sample_env init_app
      (superseded_trace @ [ImageReply 0 image_reply, GuideReply 1 (Response 500 None)])"
  let ?calm = "run sample_env init_app
      (superseded_trace @ [SetLocation ''Nara'', GuideReply 1 (Response 500 None)])"
  have 1: "?s = run sample_env init_app ?evs" ..
  have 2: "\<not> loading ?s" unfolding kyoto_typed by (simp add: init_app_def)
  have 3: "location ?s \<noteq> []" unfolding kyoto_typed by simp
  have q: "searches ?s = 1" unfolding kyoto_typed by simp
  have k: "key_present sample_env" by (rule key_present_sample)
  have 4: "\<forall>r'. GuideReply (searches ?s) r' \<notin> set [ImageReply 0 image_reply]" by simp
  have m4: "\<forall>r'. GuideReply (searches ?s) r' \<notin> set [SetLocation ''Nara'']" by simp
  have f: "guide_result sample_env (Response 500 None) = Inl (ApiRequestFailed 500)"
    by (rule guide_result_500)
  then have 5: "(\<exists>err. guide_result sample_env (Response 500 None) = Inl err)
      \<or> guide_result sample_env (Response 500 None) = Inr JNull" by simp
  have "?final = run sample_env (step sample_env ?s Submit)
          ([ImageReply 0 image_reply] @ [GuideReply (searches ?s) (Response 500 None)])"
    unfolding q superseded_trace_def by (simp only: run_simps append.simps)
  with k have 6: "?final = (if key_present sample_env
         then run sample_env (step sample_env ?s Submit)
          ([ImageReply 0 image_reply] @ [GuideReply (searches ?s) (Response 500 None)])
         else step sample_env ?s Submit)"
    by (simp only: if_True)
  have "?calm = run sample_env (step sample_env ?s Submit)
          ([SetLocation ''Nara''] @ [GuideReply (searches ?s) (Response 500 None)])"
    unfolding q superseded_trace_def by (simp only: run_simps append.simps)
  with k have m6: "?calm = (if key_present sample_env
         then run sample_env (step sample_env ?s Submit)
          ([SetLocation ''Nara''] @ [GuideReply (searches ?s) (Response 500 None)])
         else step sample_env ?s Submit)"
    by (simp only: if_True)
  have i: "imageUrl ?final = Some ?u"
    unfolding superseded_failed_state by simp
  note stale = guide_failure_blocks [OF 1 2 3 4 5 6,
      where p = "JStr ''A kaiseki course''" and later = "[]" and u = ?u]
  from stale i have x: "\<exists>q' ri. ImageReply q' ri \<in> set [ImageReply 0 image_reply] \<and> q' < 1
         \<and> image_result sample_env ri = Inr ?u"
    unfolding q by blast
  from stale have y: "error ?final = Some generic_message" "guide ?final = JNull"
    "ImageRequest 1 (JStr ''A kaiseki course'') \<notin> set (net ?final)"
    unfolding q run_Nil by blast+
  have n: "\<forall>q' ri. ImageReply q' ri \<notin> set [SetLocation ''Nara'']" by simp
  from guide_failure_blocks [OF 1 2 3 m4 5 m6] n have z: "imageUrl ?calm = None" by blast
  let ?k = "run keyless_env init_app [SetLocation ''Rome'']"
  have ks: "?k = init_app\<lparr> location := ''Rome'' \<rparr>" by (simp add: run_simps)
  have k1: "?k = run keyless_env init_app [SetLocation ''Rome'']" ..
  have k2: "\<not> loading ?k" unfolding ks by (simp add: init_app_def)
  have k3: "location ?k \<noteq> []" unfolding ks by simp
  have k4: "\<forall>r'. GuideReply (searches ?k) r' \<notin> set []" by simp
  have k5: "(\<exists>err. guide_result keyless_env (Response 500 None) = Inl err)
      \<or> guide_result keyless_env (Response 500 None) = Inr JNull"
    by (simp add: guide_result_500)
  have nk: "\<not> key_present keyless_env" by (rule key_present_sample)
  have "run keyless_env init_app [SetLocation ''Rome'', Submit] = step keyless_env ?k Submit"
    by (simp only: run_simps)
  with nk have k6: "run keyless_env init_app [SetLocation ''Rome'', Submit]
      = (if key_present keyless_env
         then run keyless_env (step keyless_env ?k Submit)
          ([] @ [GuideReply (searches ?k) (Response 500 None)])
         else step keyless_env ?k Submit)"
    by (simp only: if_False)
  from guide_failure_blocks [OF k1 k2 k3 k4 k5 k6]
  have kk: "error (run keyless_env init_app [SetLocation ''Rome'', Submit])
       = Some generic_message"
    "guide (run keyless_env init_app [SetLocation ''Rome'', Submit]) = JNull"
    by blast+
  from 2 3 q f k i x y z n nk kk show ?thesis
    by (simp add: generic_message_def)
qed

subsection \<open>C7: a missing key\<close>

text \<open>
  C7. Without a key, \<open>handleGetGuide\<close> called with a non-empty location throws
  \<open>ApiKeyMissing\<close> at once: no request is sent or pending, the thrown value is the
  only thing written to the console, \<open>error\<close> is set and loading has ended. No reply
  of the text service ever produces that thrown value.
\<close>

theorem missing_key_fails_without_request:
  assumes "\<not> key_present e" and "location s \<noteq> []"
  shows "handleGetGuide e s = s\<lparr> loading := False, error := Some generic_message,
            guide := JNull, imageUrl := None, searches := Suc (searches s),
            console := console s @ [GuideDiag ApiKeyMissing] \<rparr>
    \<and> net (handleGetGuide e s) = net s
    \<and> guide_inflight (handleGetGuide e s) = guide_inflight s
    \<and> error (handleGetGuide e s) = Some generic_message
    \<and> guide_result e r \<noteq> Inl ApiKeyMissing"
  using assms
  by (simp add: handleGetGuide_def guide_catch_def Let_def guide_result_def
      split: reply.splits option.splits json.splits)

theorem missing_key_fails_without_request_witness:
  "\<not> key_present keyless_env \<and> location (init_app\<lparr> location := ''Rome'' \<rparr>) \<noteq> []
   \<and> net (handleGetGuide keyless_env (init_app\<lparr> location := ''Rome'' \<rparr>)) = []
   \<and> console (handleGetGuide keyless_env (init_app\<lparr> location := ''Rome'' \<rparr>))
        = [GuideDiag ApiKeyMissing]
   \<and> error (handleGetGuide keyless_env (init_app\<lparr> location := ''Rome'' \<rparr>))
        = Some ''Could not fetch the guide. The Culinary Compass is recalibrating!''"
proof -
  have k: "\<not> key_present keyless_env" by (rule key_present_sample)
  have l: "location (init_app\<lparr> location := ''Rome'' \<rparr>) \<noteq> []" by simp
  from missing_key_fails_without_request [OF k l] k l show ?thesis
    by (simp add: init_app_def generic_message_def)
qed

subsection \<open>C8: the life of the image\<close>

text \<open>
  C8 as stated fails in its clause that an image is created only after a successful
  guide exists for that query. Rome is searched and its image request is pending; Kyoto
  is submitted, which clears \<open>imageUrl\<close>; then the image of Rome arrives. An image is
  stored while the query is the second search, whose guide request is still pending:
  no guide is stored and the only guide reply delivered is that of the first search.
\<close>

theorem image_before_guide_counterexample:
  "imageUrl (run sample_env init_app superseded_trace) = None
   \<and> searches (run sample_env init_app (superseded_trace @ [ImageReply 0 image_reply])) = 2
   \<and> guide_inflight (run sample_env init_app (superseded_trace @ [ImageReply 0 image_reply]))
       = [1]
   \<and> delivered (run sample_env init_app (superseded_trace @ [ImageReply 0 image_reply]))
       = [(0, text_reply rome_text)]
   \<and> guide (run sample_env init_app (superseded_trace @ [ImageReply 0 image_reply])) = JNull
   \<and> imageUrl (run sample_env init_app (superseded_trace @ [ImageReply 0 image_reply]))
       = Some ''data:image/png;base64,iVBORw0KGgo=''"
  unfolding superseded_image_state superseded_state by (simp add: init_app_def)

text \<open>
  C8, amended. A call of \<open>handleGetGuide\<close> with a non-empty location leaves \<open>imageUrl\<close>
  absent, with or without a key, and it is still absent when the reply to the guide
  request is handled next, whatever the reply. And in every execution, a step that
  stores an image is the handling of an image reply for a search whose own guide reply
  was delivered before and parsed to a guide; that search need not be the newest one.
\<close>

theorem image_reset_on_submit:
  assumes "location s \<noteq> []"
  shows "imageUrl (handleGetGuide e s) = None
    \<and> imageUrl (step e (handleGetGuide e s) (GuideReply (searches s) r)) = None
    \<and> (imageUrl (step e (run e init_app evs) ev) = Some u
         \<and> imageUrl (run e init_app evs) \<noteq> Some u \<longrightarrow>
       (\<exists>q ri rg g. ev = ImageReply q ri \<and> image_result e ri = Inr u
          \<and> (q, rg) \<in> set (delivered (run e init_app evs))
          \<and> guide_result e rg = Inr g \<and> g \<noteq> JNull))"
proof -
  let ?s1 = "handleGetGuide e s"
  from assms have a: "imageUrl ?s1 = None"
    by (simp add: handleGetGuide_def guide_catch_def Let_def)
  have b: "imageUrl (step e ?s1 (GuideReply (searches s) r)) = None"
  proof (cases "searches s \<in> set (guide_inflight ?s1)")
    case False
    with a show ?thesis by simp
  next
    case True
    with a show ?thesis
      by (cases e r rule: guide_settled_cases)
        (simp_all add: guide_settled_thrown guide_settled_null guide_settled_prompt
          guide_settled_plain)
  qed
  have c: "\<exists>q ri rg g. ev = ImageReply q ri \<and> image_result e ri = Inr u
          \<and> (q, rg) \<in> set (delivered (run e init_app evs))
          \<and> guide_result e rg = Inr g \<and> g \<noteq> JNull"
    if h: "imageUrl (step e (run e init_app evs) ev) = Some u"
      "imageUrl (run e init_app evs) \<noteq> Some u"
  proof -
    from step_creates_image [OF h] obtain q ri where ev: "ev = ImageReply q ri"
      and q: "q \<in> set (image_inflight (run e init_app evs))"
      and u: "image_result e ri = Inr u" by blast
    from inflight_sent_reachable [OF q] obtain p
      where "ImageRequest q p \<in> set (net (run e init_app evs))" ..
    then obtain rg g where d: "(q, rg) \<in> set (delivered (run e init_app evs))"
      "guide_result e rg = Inr g" "member g ''imageGenPrompt'' = Some p"
      unfolding justified_reachable by blast
    from d(3) have "g \<noteq> JNull" by auto
    with ev u d show ?thesis by blast
  qed
  from a b c show ?thesis by blast
qed

theorem image_reset_on_submit_witness:
  "location (shown_app\<lparr> location := ''Kyoto'' \<rparr>) \<noteq> []
   \<and> imageUrl (shown_app\<lparr> location := ''Kyoto'' \<rparr>) = Some ''data:image/png;base64,iVBORw0KGgo=''
   \<and> imageUrl (handleGetGuide sample_env (shown_app\<lparr> location := ''Kyoto'' \<rparr>)) = None
   \<and> imageUrl (handleGetGuide keyless_env (shown_app\<lparr> location := ''Kyoto'' \<rparr>)) = None
   \<and> imageUrl (step sample_env (handleGetGuide sample_env (shown_app\<lparr> location := ''Kyoto'' \<rparr>))
        (GuideReply 1 (Response 500 None))) = None
   \<and> imageUrl (run sample_env init_app
        [SetLocation ''Rome'', Submit, GuideReply 0 (text_reply rome_text)]) = None
   \<and> imageUrl (step sample_env (run sample_env init_app
        [SetLocation ''Rome'', Submit, GuideReply 0 (text_reply rome_text)])
        (ImageReply 0 image_reply)) = Some ''data:image/png;base64,iVBORw0KGgo=''
   \<and> (\<exists>rg g. (0, rg) \<in> set (delivered (run sample_env init_app
        [SetLocation ''Rome'', Submit, GuideReply 0 (text_reply rome_text)]))
        \<and> guide_result sample_env rg = Inr g \<and> g \<noteq> JNull)"
proof -
  let ?t = "[SetLocation ''Rome'', Submit, GuideReply 0 (text_reply rome_text)]"
  let ?u = "''data:image/png;base64,iVBORw0KGgo=''"
  have l: "location (shown_app\<lparr> location := ''Kyoto'' \<rparr>) \<noteq> []" by simp
  have s: "searches (shown_app\<lparr> location := ''Kyoto'' \<rparr>) = 1"
    by (simp add: shown_app_def)
  have i: "imageUrl (shown_app\<lparr> location := ''Kyoto'' \<rparr>) = Some ?u"
    by (simp add: shown_app_def)
  have n: "imageUrl (run sample_env init_app ?t) = None"
    unfolding rome_answered by (simp add: init_app_def)
  have m: "imageUrl (step sample_env (run sample_env init_app ?t) (ImageReply 0 image_reply))
      = Some ?u"
    unfolding rome_answered by (simp add: image_settled_url [OF image_result_sample])
  note inst = image_reset_on_submit [OF l, where e = sample_env and r = "Response 500 None"
      and evs = ?t and ev = "ImageReply 0 image_reply" and u = ?u]
  from inst n m have "\<exists>q ri rg g. ImageReply 0 image_reply = ImageReply q ri
      \<and> image_result sample_env ri = Inr ?u
      \<and> (q, rg) \<in> set (delivered (run sample_env init_app ?t))
      \<and> guide_result sample_env rg = Inr g \<and> g \<noteq> JNull"
    by simp
  then have x: "\<exists>rg g. (0, rg) \<in> set (delivered (run sample_env init_app ?t))
      \<and> guide_result sample_env rg = Inr g \<and> g \<noteq> JNull"
    by blast
  from inst image_reset_on_submit [OF l, of keyless_env]
  have "imageUrl (handleGetGuide sample_env (shown_app\<lparr> location := ''Kyoto'' \<rparr>)) = None"
    "imageUrl (handleGetGuide keyless_env (shown_app\<lparr> location := ''Kyoto'' \<rparr>)) = None"
    "imageUrl (step sample_env (handleGetGuide sample_env (shown_app\<lparr> location := ''Kyoto'' \<rparr>))
        (GuideReply 1 (Response 500 None))) = None"
    unfolding s by blast+
  with l i n m x show ?thesis by blast
qed

subsection \<open>C9: what the user is told\<close>

text \<open>
  C9 as stated fails: the message shown for an empty query is not the message shown
  for a missing key.
\<close>

theorem empty_query_message_counterexample:
  "error (handleGetGuide sample_env init_app) = Some ''Please enter a country or city.''
   \<and> error (handleGetGuide keyless_env (init_app\<lparr> location := ''Rome'' \<rparr>))
       = Some ''Could not fetch the guide. The Culinary Compass is recalibrating!''
   \<and> error (handleGetGuide sample_env init_app)
       \<noteq> error (handleGetGuide keyless_env (init_app\<lparr> location := ''Rome'' \<rparr>))"
  by (simp add: handleGetGuide_def guide_catch_def Let_def init_app_def key_present_sample
      empty_message_def generic_message_def)

text \<open>
  C9, amended. Every failure thrown inside the \<open>try\<close> block of \<open>handleGetGuide\<close> (a
  missing key, a status that is not a success, a response without the nested text, a
  text that does not parse) sets the same generic message, and the thrown value, which
  differs between these four, is written to the console. An empty query is told apart
  from them: it sets a message of its own, different from the generic one, and writes
  nothing to the console.
\<close>

theorem guide_failures_share_message:
  "(location s \<noteq> [] \<and> \<not> key_present e \<longrightarrow>
      error (handleGetGuide e s) = Some generic_message
      \<and> console (handleGetGuide e s) = console s @ [GuideDiag ApiKeyMissing])
   \<and> (q \<in> set (guide_inflight s) \<and> guide_result e r = Inl err \<longrightarrow>
      error (step e s (GuideReply q r)) = Some generic_message
      \<and> console (step e s (GuideReply q r)) = console s @ [GuideDiag err])
   \<and> (\<not> ok status \<longrightarrow>
      guide_result e (Response status body) = Inl (ApiRequestFailed status))
   \<and> (ok status \<and> result \<noteq> JNull \<and> \<not> truthy (jsonResponseText result) \<longrightarrow>
      guide_result e (Response status (Some result)) = Inl InvalidResponseStructure)
   \<and> (ok status \<and> result \<noteq> JNull \<and> jsonResponseText result = Some t \<and> truthy (Some t)
       \<and> JSON_parse e t = None \<longrightarrow>
      guide_result e (Response status (Some result)) = Inl SyntaxError)
   \<and> distinct [ApiKeyMissing, ApiRequestFailed status, InvalidResponseStructure, SyntaxError]
   \<and> (location s = [] \<longrightarrow>
      error (handleGetGuide e s) = Some empty_message
      \<and> console (handleGetGuide e s) = console s)
   \<and> empty_message \<noteq> generic_message"
proof -
  have a: "error (handleGetGuide e s) = Some generic_message
      \<and> console (handleGetGuide e s) = console s @ [GuideDiag ApiKeyMissing]"
    if "location s \<noteq> []" "\<not> key_present e"
    using that by (simp add: handleGetGuide_def guide_catch_def Let_def)
  have b: "error (step e s (GuideReply q r)) = Some generic_message
      \<and> console (step e s (GuideReply q r)) = console s @ [GuideDiag err]"
    if "q \<in> set (guide_inflight s)" "guide_result e r = Inl err"
    using that by (simp add: guide_settled_thrown)
  have c: "error (handleGetGuide e s) = Some empty_message
      \<and> console (handleGetGuide e s) = console s"
    if "location s = []"
    using that by (simp add: handleGetGuide_def)
  have d: "distinct [ApiKeyMissing, ApiRequestFailed status, InvalidResponseStructure,
      SyntaxError]" by simp
  have m: "empty_message \<noteq> generic_message"
    by (simp add: empty_message_def generic_message_def)
  from a b c d m guide_result_status guide_result_no_text guide_result_unparsed
  show ?thesis by blast
qed

theorem guide_failures_share_message_witness:
  "location (init_app\<lparr> location := ''Rome'' \<rparr>) \<noteq> [] \<and> \<not> key_present keyless_env
   \<and> error (handleGetGuide keyless_env (init_app\<lparr> location := ''Rome'' \<rparr>))
       = Some generic_message
   \<and> 0 \<in> set (guide_inflight (handleGetGuide sample_env (init_app\<lparr> location := ''Rome'' \<rparr>)))
   \<and> \<not> ok 500
   \<and> guide_result sample_env (Response 500 None) = Inl (ApiRequestFailed 500)
   \<and> error (step sample_env (handleGetGuide sample_env (init_app\<lparr> location := ''Rome'' \<rparr>))
        (GuideReply 0 (Response 500 None))) = Some generic_message
   \<and> console (step sample_env (handleGetGuide sample_env (init_app\<lparr> location := ''Rome'' \<rparr>))
        (GuideReply 0 (Response 500 None))) = [GuideDiag (ApiRequestFailed 500)]
   \<and> ok 200 \<and> \<not> truthy (jsonResponseText (JObj []))
   \<and> guide_result sample_env (Response 200 (Some (JObj []))) = Inl InvalidResponseStructure
   \<and> JSON_parse sample_env (JStr ''not json'') = None
   \<and> guide_result sample_env (text_reply ''not json'') = Inl SyntaxError
   \<and> location init_app = []
   \<and> error (handleGetGuide sample_env init_app) = Some empty_message"
proof -
  let ?rome = "init_app\<lparr> location := ''Rome'' \<rparr>"
  let ?bad = "JObj [(''candidates'',
     JArr [JObj [(''content'', JObj [(''parts'', JArr [JObj [(''text'', JStr ''not json'')]])])]])]"
  have l: "location ?rome \<noteq> []" by simp
  have k: "\<not> key_present keyless_env" by (rule key_present_sample)
  have i: "0 \<in> set (guide_inflight (handleGetGuide sample_env ?rome))"
    and c: "console (handleGetGuide sample_env ?rome) = []"
    by (simp_all add: handleGetGuide_def init_app_def key_present_sample Let_def)
  have n: "\<not> ok 500" and o: "ok 200" by (simp_all add: ok_def)
  have z: "location init_app = []" by (simp add: init_app_def)
  have e: "\<not> truthy (jsonResponseText (JObj []))" by (simp add: jsonResponseText_def)
  have t: "jsonResponseText ?bad = Some (JStr ''not json'')"
    by (rule jsonResponseText_text_reply)
  note t1 = guide_failures_share_message [where s = ?rome and e = keyless_env]
  note t2 = guide_failures_share_message [where s = "handleGetGuide sample_env ?rome"
      and e = sample_env and q = 0 and r = "Response 500 None"
      and err = "ApiRequestFailed 500" and status = 500 and body = None]
  note t3 = guide_failures_share_message [where s = init_app and e = sample_env
      and status = 200 and result = "JObj []"]
  note t4 = guide_failures_share_message [where e = sample_env and status = 200
      and result = ?bad and t = "JStr ''not json''"]
  from t2 n have f: "guide_result sample_env (Response 500 None) = Inl (ApiRequestFailed 500)"
    by blast
  from t3 o e
  have g: "guide_result sample_env (Response 200 (Some (JObj []))) = Inl InvalidResponseStructure"
    by simp
  from t4 o t parse_garbage
  have h: "guide_result sample_env (text_reply ''not json'') = Inl SyntaxError"
    by (simp add: text_reply_def)
  from t1 t2 t3 l k i c n f z o e g h parse_garbage show ?thesis by simp
qed

subsection \<open>C10: submitting an empty location\<close>

text \<open>
  C10. When \<open>handleGetGuide\<close> is called while \<open>location\<close> is the empty string, the only
  state field it changes is \<open>error\<close>, set to a fixed message: \<open>guide\<close>, \<open>imageUrl\<close>,
  \<open>loading\<close> and \<open>isImageLoading\<close> keep their values, so a guide and image shown before
  stay shown beside the new error.
\<close>

theorem empty_submit_only_sets_error:
  assumes "location s = []"
  shows "handleGetGuide e s = s\<lparr> error := Some empty_message \<rparr>
    \<and> guide (handleGetGuide e s) = guide s
    \<and> imageUrl (handleGetGuide e s) = imageUrl s
    \<and> loading (handleGetGuide e s) = loading s
    \<and> isImageLoading (handleGetGuide e s) = isImageLoading s"
  using assms by (simp add: handleGetGuide_def)

theorem empty_submit_only_sets_error_witness:
  "location shown_app = []
   \<and> guide (handleGetGuide sample_env shown_app) = rome_guide
   \<and> imageUrl (handleGetGuide sample_env shown_app) = Some ''data:image/png;base64,iVBORw0KGgo=''
   \<and> error (handleGetGuide sample_env shown_app) = Some ''Please enter a country or city.''"
proof -
  have h: "location shown_app = []"
    by (simp add: shown_app_def init_app_def)
  from empty_submit_only_sets_error [OF h, of sample_env] have
    "handleGetGuide sample_env shown_app = shown_app\<lparr> error := Some empty_message \<rparr>"
    by simp
  with h show ?thesis
    by (simp add: shown_app_def init_app_def empty_message_def)
qed

end
